theory Spec2Isabelle
  imports Complex_Main
begin

section \<open>Data model\<close>

text \<open>
  The reservation collection is the Mongoose model \<open>SpecialCourse\<close>, the payment log is
  \<open>SpecialCoursePayment\<close>. A collection is the list of its documents in insertion order.
  Times are JavaScript time values (milliseconds since the epoch) as \<open>int\<close>; every
  operation takes the time it runs at as an argument.

  Every \<open>selectedDate\<close> the program stores is the UTC midnight of a calendar day: it is
  built by \<open>Date.UTC\<close> from a year, a month and a day. The model represents such a
  \<open>Date\<close> by its day number, the number of days since 1 January 1970.

  Strings are UTF-8 text. The schema trims the strings it stores, and Mongoose casts the
  values of a query filter with the same setters, so a filter on \<open>carnivalName\<close>,
  \<open>selectedBatch\<close>, \<open>email\<close> or \<open>phone\<close> compares the stored field with the trimmed
  argument.

  Fields that no operation below reads and no validator requires (request metadata,
  payment method details, updatedAt) are left out, and so are the emails, which are
  sent after the writes and change no document. The store itself does not fail: a
  query or a write throws only for the reasons the model names (schema validation, a
  cast, a unique index, an unset secret, the gateway, a malformed pattern).
\<close>

type_synonym js_date = int

datatype reg_status = Pending_payment | Registered | Expired | Cancelled | Refunded

datatype pay_status = Pay_pending | Pay_paid | Pay_expired | Pay_failed | Pay_refunded

text \<open>
  The schema's enum for \<open>status\<close> is \<open>pending_payment, registered, expired, cancelled\<close>;
  \<open>Refunded\<close> is the value \<open>'refunded'\<close> that \<open>handlePaymentRefunded\<close> assigns and that
  validation rejects on save.
\<close>

definition status_enum :: "reg_status \<Rightarrow> bool" where
  "status_enum st = (st \<noteq> Refunded)"

record payment_info =
  razorpay_payment_id :: "string option"
  razorpay_order_id :: "string option"
  razorpay_signature :: "string option"
  amount :: "rat option"
  pay_state :: "string option"
  payment_date :: "int option"

record reservation =
  registrationId :: string
  carnivalName :: string
  parentName :: string
  email :: string
  phone :: string
  childName :: string
  childAge :: string
  selectedBatch :: string
  batchTime :: string
  selectedDate :: js_date
  materialType :: bool
  status :: reg_status
  payment_status :: pay_status
  payment :: payment_info
  payment_expires_at :: "int option"
  payment_confirmed_at :: "int option"
  expiredAt :: "int option"
  expiration_reason :: "string option"
  createdAt :: int

datatype log_status = Log_created | Log_authorized | Log_captured | Log_failed | Log_refunded

record pay_log =
  l_registrationId :: "string option"
  l_razorpay_payment_id :: string
  l_razorpay_order_id :: "string option"
  l_amount :: "rat option"
  l_status :: log_status

record db =
  regs :: "reservation list"
  pays :: "pay_log list"

datatype error =
  ValidationError | CastError | DuplicateKey | TypeError | SyntaxError | RangeError

subsection \<open>Constants\<close>

definition BATCH_CAPACITY :: int where
  "BATCH_CAPACITY = 20"

definition MAX_PENDING_MINUTES :: int where
  "MAX_PENDING_MINUTES = 15"

definition DELETE_PENDING_AFTER_MINUTES :: int where
  "DELETE_PENDING_AFTER_MINUTES = 10"

section \<open>Strings, numbers and dates of the platform\<close>

subsection \<open>Strings\<close>

fun startsWith :: "string \<Rightarrow> string \<Rightarrow> bool" where
  "startsWith str [] = True"
| "startsWith [] (p # ps) = False"
| "startsWith (ch # str) (p # ps) = (ch = p \<and> startsWith str ps)"

fun str_includes :: "string \<Rightarrow> string \<Rightarrow> bool" where
  "str_includes [] p = (p = [])"
| "str_includes (ch # str) p = (startsWith (ch # str) p \<or> str_includes str p)"

text \<open>
  The white space of JavaScript, which \<open>trim\<close> removes at both ends and \<open>parseInt\<close> skips
  at the start: the characters 9 to 13 and the space, and, in UTF-8, U+00A0, U+1680,
  U+2000 to U+200A, U+2028, U+2029, U+202F, U+205F, U+3000 and U+FEFF.
\<close>

definition white_space :: "string list" where
  "white_space =
     [[CHR 0x09], [CHR 0x0A], [CHR 0x0B], [CHR 0x0C], [CHR 0x0D], [CHR 0x20],
      [CHR 0xC2, CHR 0xA0], [CHR 0xE1, CHR 0x9A, CHR 0x80],
      [CHR 0xE2, CHR 0x80, CHR 0x80], [CHR 0xE2, CHR 0x80, CHR 0x81],
      [CHR 0xE2, CHR 0x80, CHR 0x82], [CHR 0xE2, CHR 0x80, CHR 0x83],
      [CHR 0xE2, CHR 0x80, CHR 0x84], [CHR 0xE2, CHR 0x80, CHR 0x85],
      [CHR 0xE2, CHR 0x80, CHR 0x86], [CHR 0xE2, CHR 0x80, CHR 0x87],
      [CHR 0xE2, CHR 0x80, CHR 0x88], [CHR 0xE2, CHR 0x80, CHR 0x89],
      [CHR 0xE2, CHR 0x80, CHR 0x8A], [CHR 0xE2, CHR 0x80, CHR 0xA8],
      [CHR 0xE2, CHR 0x80, CHR 0xA9], [CHR 0xE2, CHR 0x80, CHR 0xAF],
      [CHR 0xE2, CHR 0x81, CHR 0x9F], [CHR 0xE3, CHR 0x80, CHR 0x80],
      [CHR 0xEF, CHR 0xBB, CHR 0xBF]]"

text \<open>Removing, from the start of a string, every leading occurrence of one of the given words.\<close>

function strip_leading :: "string list \<Rightarrow> string \<Rightarrow> string" where
  "strip_leading ws str =
     (case find (\<lambda>w. w \<noteq> [] \<and> startsWith str w) ws of
        None \<Rightarrow> str
      | Some w \<Rightarrow> strip_leading ws (drop (length w) str))"
  by pat_completeness auto
termination
proof (relation "measure (\<lambda>(ws, str). length str)")
  show "wf (measure (\<lambda>(ws, str). length str))"
    by simp
next
  fix ws :: "string list" and str w :: string
  assume "find (\<lambda>w. w \<noteq> [] \<and> startsWith str w) ws = Some w"
  then have "w \<noteq> []" and "startsWith str w"
    by (auto simp: find_Some_iff)
  then have "str \<noteq> []"
    by (cases str; cases w) auto
  with \<open>w \<noteq> []\<close> show "((ws, drop (length w) str), (ws, str)) \<in> measure (\<lambda>(ws, str). length str)"
    by simp
qed

declare strip_leading.simps [simp del]

text \<open>The words of the given list that a string starts with, one after the other.\<close>

function leading_words :: "string list \<Rightarrow> string \<Rightarrow> string list" where
  "leading_words ws str =
     (case find (\<lambda>w. w \<noteq> [] \<and> startsWith str w) ws of
        None \<Rightarrow> []
      | Some w \<Rightarrow> w # leading_words ws (drop (length w) str))"
  by pat_completeness auto
termination
proof (relation "measure (\<lambda>(ws, str). length str)")
  show "wf (measure (\<lambda>(ws, str). length str))"
    by simp
next
  fix ws :: "string list" and str w :: string
  assume "find (\<lambda>w. w \<noteq> [] \<and> startsWith str w) ws = Some w"
  then have "w \<noteq> []" and "startsWith str w"
    by (auto simp: find_Some_iff)
  then have "str \<noteq> []"
    by (cases str; cases w) auto
  with \<open>w \<noteq> []\<close> show "((ws, drop (length w) str), (ws, str)) \<in> measure (\<lambda>(ws, str). length str)"
    by simp
qed

declare leading_words.simps [simp del]

definition trim :: "string \<Rightarrow> string" where
  "trim str =
     rev (strip_leading (map rev white_space) (rev (strip_leading white_space str)))"

text \<open>\<open>toLowerCase\<close> on ASCII text: only the letters A to Z have a lower case.\<close>

definition lower_char :: "char \<Rightarrow> char" where
  "lower_char ch =
     (case map_of (zip ''ABCDEFGHIJKLMNOPQRSTUVWXYZ'' ''abcdefghijklmnopqrstuvwxyz'') ch of
        Some l \<Rightarrow> l
      | None \<Rightarrow> ch)"

definition toLowerCase :: "string \<Rightarrow> string" where
  "toLowerCase str = map lower_char str"

text \<open>\<open>str.split('-')\<close>.\<close>

fun split_dash :: "string \<Rightarrow> string list" where
  "split_dash [] = [[]]"
| "split_dash (ch # str) =
     (if ch = CHR ''-'' then [] # split_dash str
      else case split_dash str of
             [] \<Rightarrow> [[ch]]
           | p # ps \<Rightarrow> (ch # p) # ps)"

text \<open>
  The line terminators of JavaScript, which the dot of a regular expression does not
  match: the characters 10 and 13, U+2028 and U+2029.
\<close>

definition line_terminators :: "string list" where
  "line_terminators =
     [[CHR 0x0A], [CHR 0x0D], [CHR 0xE2, CHR 0x80, CHR 0xA8], [CHR 0xE2, CHR 0x80, CHR 0xA9]]"

fun line_prefix :: "string \<Rightarrow> string" where
  \<comment> \<open>the text up to the next line terminator\<close>
  "line_prefix [] = []"
| "line_prefix (ch # str) =
     (if list_ex (startsWith (ch # str)) line_terminators then [] else ch # line_prefix str)"

fun after_first :: "string \<Rightarrow> string \<Rightarrow> string option" where
  \<comment> \<open>the text after the leftmost occurrence of a word\<close>
  "after_first word [] = None"
| "after_first word (ch # str) =
     (if startsWith (ch # str) word then Some (drop (length word) (ch # str))
      else after_first word str)"

text \<open>\<open>parts[i]\<close>, which is \<open>undefined\<close> (\<open>None\<close>) past the end.\<close>

definition part :: "string list \<Rightarrow> nat \<Rightarrow> string option" where
  "part parts i = (if i < length parts then Some (parts ! i) else None)"

subsection \<open>Numbers\<close>

definition is_digit :: "char \<Rightarrow> bool" where
  "is_digit ch = (ch \<in> set ''0123456789'')"

definition is_hex_digit :: "char \<Rightarrow> bool" where
  "is_hex_digit ch = (ch \<in> set ''0123456789abcdefABCDEF'')"

definition digit_char :: "nat \<Rightarrow> char" where
  "digit_char n = ''0123456789'' ! (n mod 10)"

definition digit_value :: "char \<Rightarrow> nat" where
  "digit_value ch =
     (case map_of (zip ''0123456789abcdefABCDEF''
             [0, 1, 2, 3, 4, 5, 6, 7, 8, 9, 10, 11, 12, 13, 14, 15, 10, 11, 12, 13, 14, 15]) ch of
        Some v \<Rightarrow> v
      | None \<Rightarrow> 0)"

function decimal :: "nat \<Rightarrow> string" where
  "decimal n = (if n < 10 then [digit_char n] else decimal (n div 10) @ [digit_char (n mod 10)])"
  by pat_completeness auto
termination
  by (relation "measure id") auto

declare decimal.simps [simp del]

definition parseInt10 :: "string \<Rightarrow> nat" where
  "parseInt10 ds = foldl (\<lambda>acc ch. 10 * acc + digit_value ch) 0 ds"

definition padStart :: "nat \<Rightarrow> char \<Rightarrow> string \<Rightarrow> string" where
  "padStart n ch str = replicate (n - length str) ch @ str"

text \<open>
  \<open>parseInt(str)\<close> without a radix: leading white space is skipped, a sign is read, the
  prefix \<open>0x\<close> selects base 16, and the longest run of digits is the number; \<open>None\<close> is
  NaN, the result when there is no digit. The value is the exact integer. JavaScript
  rounds it to a double above \<open>2^53\<close>; the program passes it to \<open>Date.UTC\<close> only, which
  yields NaN for every argument of that size.
\<close>

definition parseInt :: "string \<Rightarrow> int option" where
  "parseInt str =
     (let s0 = strip_leading white_space str;
          negative = startsWith s0 ''-'';
          s1 = (if startsWith s0 ''-'' \<or> startsWith s0 ''+'' then drop 1 s0 else s0);
          hex = (startsWith s1 ''0x'' \<or> startsWith s1 ''0X'');
          s2 = (if hex then drop 2 s1 else s1);
          digits = takeWhile (if hex then is_hex_digit else is_digit) s2;
          magnitude = int (foldl (\<lambda>acc ch. (if hex then 16 else 10) * acc + digit_value ch)
                             0 digits)
      in if digits = [] then None
         else Some (if negative then - magnitude else magnitude))"

subsection \<open>Dates\<close>

text \<open>
  \<open>Date.UTC(year, month, day)\<close> as a day number, after ECMA-262: a year from 0 to 99 is
  a year of the twentieth century, months beyond 0 to 11 carry into the year, the day of
  the month is added without a bound, and a result farther than 100,000,000 days from
  the epoch is NaN. \<open>None\<close> is NaN, also as an argument; \<open>new Date(NaN)\<close> is the Invalid
  Date.
\<close>

definition DayFromYear :: "int \<Rightarrow> int" where
  "DayFromYear y =
     365 * (y - 1970) + (y - 1969) div 4 - (y - 1901) div 100 + (y - 1601) div 400"

definition InLeapYear :: "int \<Rightarrow> bool" where
  "InLeapYear y =
     (if y mod 400 = 0 then True else if y mod 100 = 0 then False else y mod 4 = 0)"

definition days_before_month :: "int \<Rightarrow> int \<Rightarrow> int" where
  \<comment> \<open>the days of year \<open>y\<close> before its month \<open>m\<close>, counted from 0\<close>
  "days_before_month y m =
     [0, 31, 59, 90, 120, 151, 181, 212, 243, 273, 304, 334] ! nat m
       + (if InLeapYear y \<and> 2 \<le> m then 1 else 0)"

definition MakeDay :: "int \<Rightarrow> int \<Rightarrow> int \<Rightarrow> int" where
  "MakeDay year month date =
     (let ym = year + month div 12;
          mn = month mod 12
      in DayFromYear ym + days_before_month ym mn + date - 1)"

definition Date_UTC :: "int option \<Rightarrow> int option \<Rightarrow> int option \<Rightarrow> js_date option" where
  "Date_UTC y m d =
     (case y of
        None \<Rightarrow> None
      | Some year \<Rightarrow>
         (case m of
            None \<Rightarrow> None
          | Some month \<Rightarrow>
             (case d of
                None \<Rightarrow> None
              | Some date \<Rightarrow>
                 (let day = MakeDay (if 0 \<le> year \<and> year \<le> 99 then 1900 + year else year)
                              month date
                  in if - 100000000 \<le> day \<and> day \<le> 100000000 then Some day else None))))"

text \<open>
  The calendar day of a day number (year, month from 1, day of the month), and the date
  part of \<open>toISOString()\<close>, which is \<open>toISOString().split('T')[0]\<close>: the year has four
  digits from 0 to 9999 and a sign and six digits otherwise.
\<close>

definition civil_of_day :: "int \<Rightarrow> int \<times> int \<times> int" where
  "civil_of_day day =
     (let z = day + 719468;
          era = z div 146097;
          doe = z mod 146097;
          yoe = (doe - doe div 1460 + doe div 36524 - doe div 146096) div 365;
          doy = doe - (365 * yoe + yoe div 4 - yoe div 100);
          mp = (5 * doy + 2) div 153;
          d = doy - (153 * mp + 2) div 5 + 1;
          m = (if mp < 10 then mp + 3 else mp - 9);
          y = yoe + era * 400 + (if m \<le> 2 then 1 else 0)
      in (y, m, d))"

definition digit_of :: "int \<Rightarrow> char" where
  "digit_of v = ''0123456789'' ! nat (v mod 10)"

definition digits_of :: "nat \<Rightarrow> int \<Rightarrow> string" where
  \<comment> \<open>\<open>v\<close> in \<open>width\<close> decimal digits, for \<open>0 \<le> v < 10 ^ width\<close>\<close>
  "digits_of width v = map (\<lambda>i. digit_of (v div 10 ^ i)) (rev [0..<width])"

definition toISODate :: "js_date \<Rightarrow> string" where
  "toISODate day =
     (case civil_of_day day of
        (y, m, d) \<Rightarrow>
          (if 0 \<le> y \<and> y \<le> 9999 then digits_of 4 y
           else (if y < 0 then ''-'' else ''+'') @ digits_of 6 \<bar>y\<bar>)
          @ ''-'' @ digits_of 2 m @ ''-'' @ digits_of 2 d)"

section \<open>Requests, replies and the run-time environment\<close>

record register_request =
  req_carnivalName :: string
  req_selectedDate :: string
  req_availableDates :: "string list"
  req_selectedBatch :: string
  req_parentName :: string
  req_email :: string
  req_phone :: string
  req_childName :: string
  req_childAge :: string
  req_materialType :: bool

record verify_request =
  v_razorpay_payment_id :: string
  v_razorpay_order_id :: "string option"
  v_razorpay_signature :: "string option"
  v_registrationId :: string

text \<open>
  A webhook request: the signature header, the serialised body the signature is computed
  over (\<open>JSON.stringify(req.body)\<close>), the event name and the payment entity
  \<open>req.body.payload.payment.entity\<close>; the entity is \<open>None\<close> when the body has none, in
  which case reading it, or its \<open>id\<close>, throws a TypeError. The gateway's payment entity
  always carries an id and an amount; its \<open>order_id\<close> is null (\<open>None\<close>) for a payment that
  was made without an order.
\<close>

record webhook_payment =
  wp_id :: string
  wp_order_id :: "string option"
  wp_amount :: int
  wp_currency :: string

record webhook_request =
  wh_signature :: "string option"
  wh_body :: string
  wh_event :: string
  wh_entity :: "webhook_payment option"

text \<open>
  What the program takes from its platform and configuration is a parameter of the
  model: the regular expression engine (\<open>new RegExp(p, 'i')\<close> throws a SyntaxError,
  \<open>None\<close>, or yields the test the database applies to a field), the HMAC-SHA256 hex
  digest of a message under a key, the two secrets of the environment (\<open>None\<close> when
  unset, which makes \<open>crypto.createHmac\<close> throw), the checks of
  \<open>validateRegistrationData\<close>, which depend on regular expressions, and the parser of
  \<open>new Date(str)\<close> for free-form text together with the server's time zone:
  \<open>Date_local\<close> gives \<open>getFullYear()\<close>, \<open>getMonth()\<close> and \<open>getDate()\<close> of \<open>new Date(str)\<close>,
  or \<open>None\<close> for the Invalid Date.
\<close>

record runtime =
  RegExp_i :: "string \<Rightarrow> (string \<Rightarrow> bool) option"
  createHmac :: "string \<Rightarrow> string \<Rightarrow> string"
  RAZORPAY_KEY_SECRET :: "string option"
  WEBHOOK_SECRET :: "string option"
  validateRegistrationData :: "register_request \<Rightarrow> int \<Rightarrow> bool"
  Date_local :: "string \<Rightarrow> (int \<times> int \<times> int) option"

datatype slot_state = Available | Limited | Full | Slot_error

record slot_info =
  registeredCount :: int
  availableSlots :: int
  isFull :: bool
  isOnline :: "bool option"
  capacity :: int
  slot_status :: slot_state
  paidCount :: int
  activePendingCount :: int
  expiredPendingCount :: int
  oldPendingDeleted :: int
  slot_error :: "error option"

datatype reason =
    Missing_fields
  | Validation_failed
  | Not_found
  | Duplicate_found "string option"
  | Slot_full
  | Slot_check_failed
  | Created string
  | Order_created string
  | Already_processed
  | Registration_expired
  | Wrong_status
  | Expired_deleted
  | Invalid_signature
  | Payment_verified
  | Registration_details reservation
  | Status_details reservation "slot_info option"
  | Slots slot_info
  | Slot_list "slot_info list"
  | Cleanup_done int
  | Deleted
  | Cannot_delete
  | No_signature
  | Webhook_processed
  | Webhook_failed
  | Internal_error

datatype reply = Reply (http_status: nat) (reason: reason)

section \<open>Collections\<close>

definition findOne :: "('a \<Rightarrow> bool) \<Rightarrow> 'a list \<Rightarrow> 'a option" where
  "findOne q xs = find q xs"

definition countDocuments :: "('a \<Rightarrow> bool) \<Rightarrow> 'a list \<Rightarrow> int" where
  "countDocuments q xs = int (length (filter q xs))"

definition deleteMany :: "('a \<Rightarrow> bool) \<Rightarrow> 'a list \<Rightarrow> 'a list" where
  "deleteMany q xs = filter (\<lambda>x. \<not> q x) xs"

fun deleteOne :: "('a \<Rightarrow> bool) \<Rightarrow> 'a list \<Rightarrow> 'a list" where
  "deleteOne q [] = []"
| "deleteOne q (x # xs) = (if q x then xs else x # deleteOne q xs)"

fun updateFirst :: "('a \<Rightarrow> bool) \<Rightarrow> ('a \<Rightarrow> 'a) \<Rightarrow> 'a list \<Rightarrow> 'a list" where
  "updateFirst q f [] = []"
| "updateFirst q f (x # xs) = (if q x then f x # xs else x # updateFirst q f xs)"

subsection \<open>Saving documents\<close>

text \<open>
  The pre-save middleware of the reservation schema: a document that is saved while it
  is pending_payment and past its \<open>payment_expires_at\<close> is flagged expired.
\<close>

definition pre_save :: "int \<Rightarrow> reservation \<Rightarrow> reservation" where
  "pre_save now r =
     (case payment_expires_at r of
        None \<Rightarrow> r
      | Some expires \<Rightarrow>
          if status r = Pending_payment \<and> now > expires
          then r\<lparr>status := Expired, payment_status := Pay_expired,
                 expiration_reason := Some ''Payment timeout (auto-expire on save)'',
                 expiredAt := Some now\<rparr>
          else r)"

text \<open>
  \<open>document.save()\<close>: schema validation runs first, then the pre-save middleware, then
  the document is written. \<open>registrationId\<close> has a unique index and is never changed, so
  it identifies the stored document; inserting a second document with the same id fails.
  The schema requires nine text fields, and an empty text does not pass; a stored
  document has passed that check when it was created, and no operation changes these
  fields afterwards.
\<close>

definition required_fields :: "reservation \<Rightarrow> bool" where
  "required_fields r =
     (registrationId r \<noteq> [] \<and> carnivalName r \<noteq> [] \<and> parentName r \<noteq> [] \<and> email r \<noteq> []
      \<and> phone r \<noteq> [] \<and> childName r \<noteq> [] \<and> childAge r \<noteq> [] \<and> selectedBatch r \<noteq> []
      \<and> batchTime r \<noteq> [])"

definition save :: "int \<Rightarrow> reservation \<Rightarrow> db \<Rightarrow> error + db" where
  "save now r s =
     (if \<not> status_enum (status r) then Inl ValidationError
      else Inr (s\<lparr>regs := map (\<lambda>x. if registrationId x = registrationId r
                                     then pre_save now r else x) (regs s)\<rparr>))"

definition save_new :: "int \<Rightarrow> reservation \<Rightarrow> db \<Rightarrow> error + db" where
  "save_new now r s =
     (if \<not> status_enum (status r) \<or> \<not> required_fields r then Inl ValidationError
      else if registrationId r \<in> registrationId ` set (regs s) then Inl DuplicateKey
      else Inr (s\<lparr>regs := regs s @ [pre_save now r]\<rparr>))"

text \<open>
  \<open>SpecialCoursePayment.create\<close>: \<open>registrationId\<close>, \<open>razorpay_payment_id\<close> and \<open>amount\<close>
  are required and \<open>razorpay_payment_id\<close> has a unique index.
  \<open>findOneAndUpdate(..., {upsert: true})\<close> runs no validation.
\<close>

definition create_log :: "pay_log \<Rightarrow> pay_log list \<Rightarrow> error + pay_log list" where
  "create_log l ps =
     (if l_registrationId l = None \<or> l_razorpay_payment_id l = [] \<or> l_amount l = None
      then Inl ValidationError
      else if l_razorpay_payment_id l \<in> l_razorpay_payment_id ` set ps then Inl DuplicateKey
      else Inr (ps @ [l]))"

definition upsert_log_status :: "string \<Rightarrow> log_status \<Rightarrow> pay_log list \<Rightarrow> pay_log list" where
  "upsert_log_status pid st ps =
     (case findOne (\<lambda>l. l_razorpay_payment_id l = pid) ps of
        Some _ \<Rightarrow> updateFirst (\<lambda>l. l_razorpay_payment_id l = pid) (\<lambda>l. l\<lparr>l_status := st\<rparr>) ps
      | None \<Rightarrow> ps @ [\<lparr>l_registrationId = None, l_razorpay_payment_id = pid,
                        l_razorpay_order_id = None, l_amount = None, l_status = st\<rparr>])"

text \<open>A best-effort log append: a failure is caught and logged, the state stays as it was.\<close>

definition try_create_log :: "pay_log \<Rightarrow> db \<Rightarrow> db" where
  "try_create_log l s =
     (case create_log l (pays s) of Inl _ \<Rightarrow> s | Inr ps \<Rightarrow> s\<lparr>pays := ps\<rparr>)"

definition by_id :: "string \<Rightarrow> reservation \<Rightarrow> bool" where
  "by_id rid r = (registrationId r = rid)"

definition delete_registration :: "string \<Rightarrow> db \<Rightarrow> db" where
  "delete_registration rid s = s\<lparr>regs := deleteOne (by_id rid) (regs s)\<rparr>"

definition delete_payment_records :: "string \<Rightarrow> db \<Rightarrow> db" where
  "delete_payment_records rid s =
     s\<lparr>pays := deleteMany (\<lambda>l. l_registrationId l = Some rid) (pays s)\<rparr>"

section \<open>Registration ids\<close>

text \<open>The pattern \<open>/^LS-RD26-\d{5}$/\<close>.\<close>

definition is_carnival_id :: "string \<Rightarrow> bool" where
  "is_carnival_id rid =
     (length rid = 13 \<and> take 8 rid = ''LS-RD26-'' \<and> list_all is_digit (drop 8 rid))"

text \<open>
  \<open>sort({registrationId: -1})\<close> and \<open>findOne\<close>: the greatest matching id. All matching ids
  have the same length and prefix, so the greatest string is the one with the greatest
  number.
\<close>

definition latest_id_number :: "reservation list \<Rightarrow> nat option" where
  "latest_id_number xs =
     (case filter is_carnival_id (map registrationId xs) of
        [] \<Rightarrow> None
      | i # ids \<Rightarrow> Some (fold max (map (\<lambda>rid. parseInt10 (drop 8 rid)) ids) (parseInt10 (drop 8 i))))"

definition generateRegistrationId :: "reservation list \<Rightarrow> string" where
  "generateRegistrationId xs =
     (let nextNumber = (case latest_id_number xs of None \<Rightarrow> 1 | Some n \<Rightarrow> n + 1)
      in ''LS-RD26-'' @ padStart 5 (CHR ''0'') (decimal nextNumber))"

section \<open>Date arguments\<close>

text \<open>
  \<open>parseDateForQuery\<close> is given the text of a request or the \<open>Date\<close> of a stored
  reservation. A \<open>Date\<close> is returned as it is. A text of exactly three parts between
  dashes is read with \<open>parseInt\<close> and \<open>Date.UTC\<close>; any other text goes through
  \<open>new Date(str)\<close> and the local calendar fields of the result. \<open>None\<close> is the Invalid
  Date.
\<close>

datatype date_arg = Date_string string | Date_object js_date

definition parseDateForQuery :: "runtime \<Rightarrow> date_arg \<Rightarrow> js_date option" where
  "parseDateForQuery rt arg =
     (case arg of
        Date_object date \<Rightarrow> Some date
      | Date_string dateString \<Rightarrow>
          (let parts = split_dash dateString
           in if length parts = 3
              then Date_UTC (parseInt (parts ! 0))
                     (map_option (\<lambda>month. month - 1) (parseInt (parts ! 1)))
                     (parseInt (parts ! 2))
              else case Date_local rt dateString of
                     None \<Rightarrow> None
                   | Some (fullYear, month, date) \<Rightarrow>
                       Date_UTC (Some fullYear) (Some month) (Some date)))"

text \<open>
  \<open>validateDate\<close> of validation.service.js reads the first three parts between dashes,
  whatever their number (\<open>parseInt(undefined)\<close> is NaN); the date must be one of the
  available dates when the request lists any, and must not be before today (UTC). The
  result is the \<open>Date\<close> that \<open>register\<close> stores, \<open>None\<close> when the date is not valid.
\<close>

definition validateDate :: "string \<Rightarrow> string list \<Rightarrow> int \<Rightarrow> js_date option" where
  "validateDate dateString availableDates now =
     (if dateString = [] then None
      else let dateParts = split_dash dateString;
               year = Option.bind (part dateParts 0) parseInt;
               month = map_option (\<lambda>month. month - 1) (Option.bind (part dateParts 1) parseInt);
               day = Option.bind (part dateParts 2) parseInt
           in case Date_UTC year month day of
                None \<Rightarrow> None
              | Some date \<Rightarrow>
                  if availableDates \<noteq> [] \<and> dateString \<notin> set availableDates then None
                  else if date < now div 86400000 then None
                  else Some date)"

section \<open>Slot ledger\<close>

text \<open>
  The scope of a query: the filter values of \<open>carnivalName\<close> and \<open>selectedBatch\<close> are cast
  by the schema, which trims them; the date is compared as a \<open>Date\<close>.
\<close>

definition in_scope :: "string \<Rightarrow> string \<Rightarrow> js_date \<Rightarrow> reservation \<Rightarrow> bool" where
  "in_scope c b queryDate r =
     (carnivalName r = trim c \<and> selectedBatch r = trim b \<and> selectedDate r = queryDate)"

definition oldPendingQuery :: "string \<Rightarrow> string \<Rightarrow> js_date \<Rightarrow> int \<Rightarrow> reservation \<Rightarrow> bool" where
  "oldPendingQuery c b queryDate deleteThreshold r =
     (in_scope c b queryDate r \<and> status r = Pending_payment \<and> payment_status r = Pay_pending
      \<and> createdAt r < deleteThreshold)"

definition paidQuery :: "string \<Rightarrow> string \<Rightarrow> js_date \<Rightarrow> reservation \<Rightarrow> bool" where
  "paidQuery c b queryDate r =
     (in_scope c b queryDate r \<and> status r = Registered \<and> payment_status r = Pay_paid)"

definition activePendingQuery :: "string \<Rightarrow> string \<Rightarrow> js_date \<Rightarrow> int \<Rightarrow> reservation \<Rightarrow> bool" where
  "activePendingQuery c b queryDate deleteThreshold r =
     (in_scope c b queryDate r \<and> status r = Pending_payment \<and> payment_status r = Pay_pending
      \<and> createdAt r \<ge> deleteThreshold)"

definition expiredPendingQuery :: "string \<Rightarrow> string \<Rightarrow> js_date \<Rightarrow> reservation \<Rightarrow> bool" where
  "expiredPendingQuery c b queryDate r =
     (in_scope c b queryDate r \<and> status r = Expired \<and> payment_status r = Pay_expired)"

text \<open>
  The lazy sweep of \<open>checkSlotAvailability\<close>: the stale holds are deleted first, and the
  registration ids whose payment records are to be deleted are read afterwards, with the
  same query, from the collection the holds were just removed from.
\<close>

definition sweepOldPending :: "string \<Rightarrow> string \<Rightarrow> js_date \<Rightarrow> int \<Rightarrow> db \<Rightarrow> db" where
  "sweepOldPending c b queryDate deleteThreshold s =
     (let s1 = s\<lparr>regs := deleteMany (oldPendingQuery c b queryDate deleteThreshold) (regs s)\<rparr>;
          regIds = remdups (map registrationId
                     (filter (oldPendingQuery c b queryDate deleteThreshold) (regs s1)))
      in if length regIds > 0
         then s1\<lparr>pays := deleteMany (\<lambda>p. l_registrationId p \<in> Some ` set regIds) (pays s1)\<rparr>
         else s1)"

text \<open>
  The body of \<open>checkSlotAvailability\<close> once the date argument has been parsed to a valid
  \<open>Date\<close>. The display date is the query date parsed again from the date part of its ISO
  string, which is the same day.
\<close>

definition slotSnapshot :: "string \<Rightarrow> string \<Rightarrow> js_date \<Rightarrow> int \<Rightarrow> db \<Rightarrow> slot_info \<times> db" where
  "slotSnapshot c b queryDate now s =
     (let deleteThreshold = now - DELETE_PENDING_AFTER_MINUTES * 60 * 1000;
          oldPendingCount = countDocuments (oldPendingQuery c b queryDate deleteThreshold) (regs s);
          s' = (if oldPendingCount > 0 then sweepOldPending c b queryDate deleteThreshold s
                else s);
          paid = countDocuments (paidQuery c b queryDate) (regs s');
          activePending = countDocuments (activePendingQuery c b queryDate deleteThreshold)
                            (regs s');
          expiredPending = countDocuments (expiredPendingQuery c b queryDate) (regs s');
          dateString = toISODate queryDate;
          online = (dateString = ''2026-01-25'');
          effectiveCapacity = (if online then 9999 else BATCH_CAPACITY);
          registered = paid + activePending;
          available = max 0 (effectiveCapacity - registered)
      in (\<lparr>registeredCount = registered,
           availableSlots = (if online then 999 else available),
           isFull = (\<not> online \<and> available = 0),
           isOnline = Some online,
           capacity = effectiveCapacity,
           slot_status = (if \<not> online \<and> available = 0 then Full
                          else if \<not> online \<and> available \<le> 3 then Limited
                          else Available),
           paidCount = paid,
           activePendingCount = activePending,
           expiredPendingCount = expiredPending,
           oldPendingDeleted = oldPendingCount,
           slot_error = None\<rparr>, s'))"

text \<open>
  The snapshot of the \<open>catch\<close> branch. The query throws when the date argument is the
  Invalid Date (\<open>toISOString\<close> raises a RangeError), before anything is read or deleted.
\<close>

definition errorSnapshot :: slot_info where
  "errorSnapshot =
     \<lparr>registeredCount = 0,
      availableSlots = BATCH_CAPACITY,
      isFull = False,
      isOnline = None,
      capacity = BATCH_CAPACITY,
      slot_status = Slot_error,
      paidCount = 0,
      activePendingCount = 0,
      expiredPendingCount = 0,
      oldPendingDeleted = 0,
      slot_error = Some RangeError\<rparr>"

definition checkSlotAvailability ::
  "runtime \<Rightarrow> string \<Rightarrow> string \<Rightarrow> date_arg \<Rightarrow> int \<Rightarrow> db \<Rightarrow> slot_info \<times> db" where
  "checkSlotAvailability rt c b dateArg now s =
     (case parseDateForQuery rt dateArg of
        None \<Rightarrow> (errorSnapshot, s)
      | Some queryDate \<Rightarrow> slotSnapshot c b queryDate now s)"

text \<open>What the availability query deletes.\<close>

definition sweptQuery ::
  "runtime \<Rightarrow> string \<Rightarrow> string \<Rightarrow> date_arg \<Rightarrow> int \<Rightarrow> reservation \<Rightarrow> bool" where
  "sweptQuery rt c b dateArg deleteThreshold r =
     (case parseDateForQuery rt dateArg of
        None \<Rightarrow> False
      | Some queryDate \<Rightarrow> oldPendingQuery c b queryDate deleteThreshold r)"

section \<open>Duplicate guard\<close>

record dup_result =
  dup_exists :: bool
  dup_data :: "reservation option"
  dup_error :: "error option"

text \<open>
  The query of \<open>checkDuplicateRegistration\<close>. The child name is interpolated into the
  pattern as it is, between \<open>^\<close> and \<open>$\<close>; building the pattern can throw. The filter
  values of \<open>carnivalName\<close>, \<open>email\<close> and \<open>phone\<close> are cast by the schema, and casting the
  Invalid Date fails.
\<close>

definition duplicateQuery ::
  "runtime \<Rightarrow> string \<Rightarrow> string \<Rightarrow> string \<Rightarrow> string \<Rightarrow> string
     \<Rightarrow> error + (reservation \<Rightarrow> bool)" where
  "duplicateQuery rt c em ph child dateString =
     (case RegExp_i rt (''^'' @ trim child @ ''$'') of
        None \<Rightarrow> Inl SyntaxError
      | Some test \<Rightarrow>
          (case parseDateForQuery rt (Date_string dateString) of
             None \<Rightarrow> Inl CastError
           | Some queryDate \<Rightarrow>
               Inr (\<lambda>r. carnivalName r = trim c \<and> selectedDate r = queryDate
                         \<and> test (childName r)
                         \<and> status r = Registered \<and> payment_status r = Pay_paid
                         \<and> (email r = trim (toLowerCase em) \<or> phone r = trim ph))))"

definition checkDuplicateRegistration ::
  "runtime \<Rightarrow> string \<Rightarrow> string \<Rightarrow> string \<Rightarrow> string \<Rightarrow> string \<Rightarrow> db \<Rightarrow> dup_result" where
  "checkDuplicateRegistration rt c em ph child dateString s =
     (case duplicateQuery rt c em ph child dateString of
        Inl e \<Rightarrow> \<lparr>dup_exists = False, dup_data = None, dup_error = Some e\<rparr>
      | Inr q \<Rightarrow>
          (case findOne q (regs s) of
             Some existing \<Rightarrow> \<lparr>dup_exists = True, dup_data = Some existing, dup_error = None\<rparr>
           | None \<Rightarrow> \<lparr>dup_exists = False, dup_data = None, dup_error = None\<rparr>))"

section \<open>Controller operations\<close>

text \<open>\<open>validateBatch\<close>: the batch contains the alarm clock character U+23F0 (in UTF-8).\<close>

definition alarm_clock :: string where
  "alarm_clock = [CHR 0xE2, CHR 0x8F, CHR 0xB0]"

definition validateBatch :: "string \<Rightarrow> bool" where
  "validateBatch b = (b \<noteq> [] \<and> str_includes b alarm_clock)"

text \<open>
  \<open>extractBatchTime\<close>: the first group of the leftmost match of the pattern that is
  the alarm clock, then white space (\<open>\s*\<close>), then the group \<open>(.+)\<close>; the whole text
  when there is no match. After the leftmost alarm clock the white space is skipped and
  the group is the rest of the line. When only white space follows, the match gives
  white space back to the group: the group is then the last white-space character that
  is not a line terminator, and there is no match when there is none.
\<close>

definition extractBatchTime :: "string \<Rightarrow> string" where
  "extractBatchTime batchString =
     (case after_first alarm_clock batchString of
        None \<Rightarrow> batchString
      | Some rest \<Rightarrow>
          (if strip_leading white_space rest \<noteq> []
           then line_prefix (strip_leading white_space rest)
           else case filter (\<lambda>w. w \<notin> set line_terminators)
                       (leading_words white_space rest) of
                  [] \<Rightarrow> batchString
                | w # ws \<Rightarrow> last (w # ws)))"

definition checkSlots :: "runtime \<Rightarrow> string \<Rightarrow> string \<Rightarrow> string \<Rightarrow> int \<Rightarrow> db \<Rightarrow> reply \<times> db" where
  "checkSlots rt c b d now s =
     (if c = [] \<or> b = [] \<or> d = [] then (Reply 400 Missing_fields, s)
      else (let (slotInfo, s') = checkSlotAvailability rt c b (Date_string d) now s
            in if slot_error slotInfo \<noteq> None then (Reply 400 Slot_check_failed, s')
               else (Reply 200 (Slots slotInfo), s')))"

text \<open>\<open>checkMultipleSlotsAvailability\<close>: one availability query for each batch of the list.\<close>

fun checkMultipleSlotsAvailability ::
  "runtime \<Rightarrow> string \<Rightarrow> date_arg \<Rightarrow> string list \<Rightarrow> int \<Rightarrow> db \<Rightarrow> slot_info list \<times> db" where
  "checkMultipleSlotsAvailability rt c dateArg [] now s = ([], s)"
| "checkMultipleSlotsAvailability rt c dateArg (batch # batchList) now s =
     (let (slotInfo, s1) = checkSlotAvailability rt c batch dateArg now s;
          (availability, s2) = checkMultipleSlotsAvailability rt c dateArg batchList now s1
      in (slotInfo # availability, s2))"

definition checkMultipleSlots ::
  "runtime \<Rightarrow> string \<Rightarrow> string \<Rightarrow> string list \<Rightarrow> int \<Rightarrow> db \<Rightarrow> reply \<times> db" where
  "checkMultipleSlots rt c d batches now s =
     (if c = [] \<or> d = [] then (Reply 400 Missing_fields, s)
      else (let (slotAvailability, s') =
                  checkMultipleSlotsAvailability rt c (Date_string d) batches now s
            in (Reply 200 (Slot_list slotAvailability), s')))"

text \<open>
  \<open>getCarnivalStatistics\<close> runs an availability query for every date and batch that the
  reservations of the event have, each with the stored \<open>Date\<close>. It then builds its reply
  with \<open>WORKSHOP_FEE\<close>, a name that the module does not define, so the request ends in the
  \<open>catch\<close> branch with 500, after the queries have run.
\<close>

definition distinct_values :: "('a \<Rightarrow> 'b) \<Rightarrow> ('a \<Rightarrow> bool) \<Rightarrow> 'a list \<Rightarrow> 'b list" where
  "distinct_values field q xs = remdups (map field (filter q xs))"

fun carnivalDateStats :: "runtime \<Rightarrow> string \<Rightarrow> js_date list \<Rightarrow> int \<Rightarrow> db \<Rightarrow> db" where
  "carnivalDateStats rt c [] now s = s"
| "carnivalDateStats rt c (date # uniqueDates) now s =
     (let batches = distinct_values selectedBatch
                      (\<lambda>r. carnivalName r = trim c \<and> selectedDate r = date) (regs s);
          (batchDetails, s1) =
             checkMultipleSlotsAvailability rt c (Date_object date) batches now s
      in carnivalDateStats rt c uniqueDates now s1)"

definition getCarnivalStatistics :: "runtime \<Rightarrow> string \<Rightarrow> int \<Rightarrow> db \<Rightarrow> reply \<times> db" where
  "getCarnivalStatistics rt c now s =
     (if c = [] then (Reply 400 Missing_fields, s)
      else (Reply 500 Internal_error,
            carnivalDateStats rt c
              (distinct_values selectedDate (\<lambda>r. carnivalName r = trim c) (regs s)) now s))"

definition new_registration ::
  "string \<Rightarrow> register_request \<Rightarrow> js_date \<Rightarrow> int \<Rightarrow> reservation" where
  "new_registration rid req date now =
     \<lparr>registrationId = rid,
      carnivalName = trim (req_carnivalName req),
      parentName = trim (trim (req_parentName req)),
      email = trim (toLowerCase (trim (toLowerCase (req_email req)))),
      phone = trim (trim (req_phone req)),
      childName = trim (trim (req_childName req)),
      childAge = trim (trim (req_childAge req)),
      selectedBatch = trim (trim (req_selectedBatch req)),
      batchTime = trim (extractBatchTime (req_selectedBatch req)),
      selectedDate = date,
      materialType = req_materialType req,
      status = Pending_payment,
      payment_status = Pay_pending,
      payment = \<lparr>razorpay_payment_id = None, razorpay_order_id = None,
                  razorpay_signature = None, amount = None, pay_state = None,
                  payment_date = None\<rparr>,
      payment_expires_at = Some (now + MAX_PENDING_MINUTES * 60 * 1000),
      payment_confirmed_at = None,
      expiredAt = None,
      expiration_reason = None,
      createdAt = now\<rparr>"

text \<open>
  What \<open>register\<close> does once the duplicate guard has let the request through; \<open>date\<close> is
  the \<open>Date\<close> that \<open>validateDate\<close> has computed.
\<close>

definition create_registration ::
  "runtime \<Rightarrow> register_request \<Rightarrow> js_date \<Rightarrow> int \<Rightarrow> db \<Rightarrow> reply \<times> db" where
  "create_registration rt req date now s =
     (let (slotInfo, s1) = checkSlotAvailability rt (req_carnivalName req)
            (req_selectedBatch req) (Date_string (req_selectedDate req)) now s
      in if isFull slotInfo then (Reply 400 Slot_full, s1)
         else (let rid = generateRegistrationId (regs s1)
               in case save_new now (new_registration rid req date now) s1 of
                    Inl _ \<Rightarrow> (Reply 500 Internal_error, s1)
                  | Inr s2 \<Rightarrow> (Reply 201 (Created rid), s2)))"

definition check_and_create ::
  "runtime \<Rightarrow> register_request \<Rightarrow> js_date \<Rightarrow> int \<Rightarrow> db \<Rightarrow> reply \<times> db" where
  "check_and_create rt req date now s =
     (let duplicateCheck = checkDuplicateRegistration rt (req_carnivalName req)
            (req_email req) (req_phone req) (req_childName req) (req_selectedDate req) s
      in if dup_exists duplicateCheck
         then (Reply 409 (Duplicate_found (map_option registrationId (dup_data duplicateCheck))), s)
         else create_registration rt req date now s)"

definition register :: "runtime \<Rightarrow> register_request \<Rightarrow> int \<Rightarrow> db \<Rightarrow> reply \<times> db" where
  "register rt req now s =
     (if \<not> validateRegistrationData rt req now then (Reply 400 Validation_failed, s)
      else if req_carnivalName req = [] then (Reply 400 Missing_fields, s)
      else case validateDate (req_selectedDate req) (req_availableDates req) now of
             None \<Rightarrow> (Reply 400 Validation_failed, s)
           | Some date \<Rightarrow>
               if \<not> validateBatch (req_selectedBatch req) then (Reply 400 Validation_failed, s)
               else check_and_create rt req date now s)"

definition fee_of :: "reservation \<Rightarrow> rat" where
  "fee_of registration = (if materialType registration then 499 else 299)"

definition createOrder :: "string \<Rightarrow> string option \<Rightarrow> int \<Rightarrow> db \<Rightarrow> reply \<times> db" where
  \<comment> \<open>the second argument is the id of the order the gateway creates, \<open>None\<close> when the call fails\<close>
  "createOrder rid gateway_order now s =
     (if rid = [] then (Reply 400 Missing_fields, s)
      else case findOne (by_id rid) (regs s) of
             None \<Rightarrow> (Reply 404 Not_found, s)
           | Some registration \<Rightarrow>
              (case gateway_order of
                 None \<Rightarrow> (Reply 500 Internal_error, s)
               | Some order_id \<Rightarrow>
                  (case save now (registration\<lparr>payment := (payment registration)
                           \<lparr>razorpay_order_id := Some order_id,
                            amount := Some (fee_of registration)\<rparr>\<rparr>) s of
                     Inl _ \<Rightarrow> (Reply 500 Internal_error, s)
                   | Inr s' \<Rightarrow> (Reply 200 (Order_created order_id), s'))))"

text \<open>
  The signature check of the client path. The sentinel \<open>direct_payment\<close> skips it; an
  absent order id is the text \<open>undefined\<close> in the signed message.
\<close>

definition verify_client_signature :: "runtime \<Rightarrow> verify_request \<Rightarrow> error + bool" where
  "verify_client_signature rt req =
     (if v_razorpay_signature req = Some ''direct_payment'' then Inr True
      else case RAZORPAY_KEY_SECRET rt of
             None \<Rightarrow> Inl TypeError
           | Some secret \<Rightarrow>
               Inr (Some (createHmac rt secret
                      ((case v_razorpay_order_id req of None \<Rightarrow> ''undefined'' | Some oid \<Rightarrow> oid)
                        @ ''|'' @ v_razorpay_payment_id req))
                    = v_razorpay_signature req))"

definition truthy :: "string option \<Rightarrow> string option" where
  "truthy x = (if x = Some [] then None else x)"

definition first_truthy :: "string option \<Rightarrow> string option \<Rightarrow> string option" where
  "first_truthy x y = (case truthy x of Some v \<Rightarrow> Some v | None \<Rightarrow> y)"

text \<open>The document \<open>verifyPayment\<close> saves, and the log entry it appends.\<close>

definition paid_registration :: "verify_request \<Rightarrow> reservation \<Rightarrow> int \<Rightarrow> reservation" where
  "paid_registration req registration now =
     registration
       \<lparr>payment := \<lparr>razorpay_payment_id = Some (v_razorpay_payment_id req),
                     razorpay_order_id = first_truthy (v_razorpay_order_id req)
                        (first_truthy (razorpay_order_id (payment registration))
                           (Some ''direct_payment'')),
                     razorpay_signature = first_truthy (v_razorpay_signature req)
                        (Some ''direct_payment''),
                     amount = Some (fee_of registration),
                     pay_state = Some ''paid'',
                     payment_date = Some now\<rparr>,
        status := Registered,
        payment_status := Pay_paid,
        payment_confirmed_at := Some now\<rparr>"

definition captured_log :: "verify_request \<Rightarrow> reservation \<Rightarrow> pay_log" where
  "captured_log req registration =
     \<lparr>l_registrationId = Some (v_registrationId req),
      l_razorpay_payment_id = v_razorpay_payment_id req,
      l_razorpay_order_id = first_truthy (v_razorpay_order_id req) (Some ''direct_payment''),
      l_amount = Some (fee_of registration),
      l_status = Log_captured\<rparr>"

definition verifyPayment :: "runtime \<Rightarrow> verify_request \<Rightarrow> int \<Rightarrow> db \<Rightarrow> reply \<times> db" where
  "verifyPayment rt req now s =
     (if v_razorpay_payment_id req = [] \<or> v_registrationId req = []
      then (Reply 400 Missing_fields, s)
      else case findOne (by_id (v_registrationId req)) (regs s) of
        None \<Rightarrow> (Reply 404 Not_found, s)
      | Some registration \<Rightarrow>
          if payment_status registration = Pay_paid then (Reply 200 Already_processed, s)
          else if status registration \<noteq> Pending_payment
          then (if status registration = Expired then (Reply 400 Registration_expired, s)
                else (Reply 400 Wrong_status, s))
          else if createdAt registration < now - DELETE_PENDING_AFTER_MINUTES * 60 * 1000
          then (Reply 400 Expired_deleted,
                delete_payment_records (v_registrationId req)
                  (delete_registration (v_registrationId req) s))
          else (let (slotInfo, s1) = checkSlotAvailability rt (carnivalName registration)
                      (selectedBatch registration) (Date_object (selectedDate registration)) now s
                in if isFull slotInfo then (Reply 400 Slot_full, s1)
                   else case verify_client_signature rt req of
                       Inl _ \<Rightarrow> (Reply 500 Internal_error, s1)
                     | Inr ok \<Rightarrow>
                         if \<not> ok then (Reply 400 Invalid_signature, s1)
                         else (case save now (paid_registration req registration now) s1 of
                                 Inl _ \<Rightarrow> (Reply 500 Internal_error, s1)
                               | Inr s2 \<Rightarrow>
                                   (Reply 200 Payment_verified,
                                    try_create_log (captured_log req registration) s2))))"

definition getRegistration :: "string \<Rightarrow> int \<Rightarrow> db \<Rightarrow> reply \<times> db" where
  "getRegistration rid now s =
     (case findOne (by_id rid) (regs s) of
        None \<Rightarrow> (Reply 404 Not_found, s)
      | Some registration \<Rightarrow>
          (let deleteThreshold = now - DELETE_PENDING_AFTER_MINUTES * 60 * 1000 in
           if status registration = Pending_payment \<and> createdAt registration < deleteThreshold
           then (Reply 404 Expired_deleted, delete_registration rid s)
           else (Reply 200 (Registration_details registration), s)))"

definition checkRegistrationStatus ::
  "runtime \<Rightarrow> string \<Rightarrow> int \<Rightarrow> db \<Rightarrow> reply \<times> db" where
  "checkRegistrationStatus rt rid now s =
     (if rid = [] then (Reply 400 Missing_fields, s)
      else case findOne (by_id rid) (regs s) of
             None \<Rightarrow> (Reply 404 Not_found, s)
           | Some registration \<Rightarrow>
              (let deleteThreshold = now - DELETE_PENDING_AFTER_MINUTES * 60 * 1000 in
               if status registration = Pending_payment \<and> createdAt registration < deleteThreshold
               then (Reply 404 Expired_deleted, delete_registration rid s)
               else if status registration = Pending_payment
               then (let (slotInfo, s1) = checkSlotAvailability rt (carnivalName registration)
                           (selectedBatch registration)
                           (Date_object (selectedDate registration)) now s
                     in (Reply 200 (Status_details registration (Some slotInfo)), s1))
               else (Reply 200 (Status_details registration None), s)))"

definition stalePending :: "int \<Rightarrow> reservation \<Rightarrow> bool" where
  "stalePending deleteThreshold r =
     (status r = Pending_payment \<and> payment_status r = Pay_pending
      \<and> createdAt r < deleteThreshold)"

definition cleanupExpiredRegistrations :: "int \<Rightarrow> db \<Rightarrow> int \<times> db" where
  "cleanupExpiredRegistrations now s =
     (let deleteThreshold = now - DELETE_PENDING_AFTER_MINUTES * 60 * 1000;
          registrationsToDelete = filter (stalePending deleteThreshold) (regs s)
      in if length registrationsToDelete = 0 then (0, s)
         else (let registrationIds = map registrationId registrationsToDelete;
                   remaining = deleteMany (\<lambda>r. registrationId r \<in> set registrationIds) (regs s)
               in (int (length (regs s)) - int (length remaining),
                   \<lparr>regs = remaining,
                    pays = deleteMany (\<lambda>l. l_registrationId l \<in> Some ` set registrationIds)
                             (pays s)\<rparr>)))"

definition runCleanup :: "int \<Rightarrow> db \<Rightarrow> reply \<times> db" where
  "runCleanup now s =
     (let (deletedCount, s') = cleanupExpiredRegistrations now s
      in (Reply 200 (Cleanup_done deletedCount), s'))"

definition expireRegistration :: "string \<Rightarrow> db \<Rightarrow> reply \<times> db" where
  "expireRegistration rid s =
     (case findOne (by_id rid) (regs s) of
        None \<Rightarrow> (Reply 404 Not_found, s)
      | Some registration \<Rightarrow>
          if status registration = Pending_payment
          then (Reply 200 Deleted, delete_payment_records rid (delete_registration rid s))
          else (Reply 200 Cannot_delete, s))"

section \<open>Payment webhook\<close>

definition verifyWebhookSignature :: "runtime \<Rightarrow> string \<Rightarrow> string \<Rightarrow> bool" where
  "verifyWebhookSignature rt body signature =
     (case WEBHOOK_SECRET rt of
        None \<Rightarrow> False
      | Some secret \<Rightarrow> createHmac rt secret body = signature)"

text \<open>
  The filter \<open>{'payment.razorpay_order_id': payment.order_id}\<close>: a null order id matches
  the reservations that have no order id.
\<close>

definition by_order :: "string option \<Rightarrow> reservation \<Rightarrow> bool" where
  "by_order oid r = (razorpay_order_id (payment r) = oid)"

definition by_payment :: "string \<Rightarrow> reservation \<Rightarrow> bool" where
  "by_payment pid r = (razorpay_payment_id (payment r) = Some pid)"

text \<open>
  Each handler catches whatever it throws and logs it; what was written before the
  failure stays written. Emails are sent after the writes and change no document.
\<close>

definition handlePaymentAuthorized :: "webhook_payment \<Rightarrow> int \<Rightarrow> db \<Rightarrow> db" where
  "handlePaymentAuthorized p now s =
     (case findOne (by_order (wp_order_id p)) (regs s) of
        None \<Rightarrow> s
      | Some registration \<Rightarrow>
          (case save now (registration\<lparr>payment_status := Pay_pending,
                            payment := (payment registration)
                                         \<lparr>razorpay_payment_id := Some (wp_id p)\<rparr>\<rparr>) s of
             Inl _ \<Rightarrow> s
           | Inr s1 \<Rightarrow>
               try_create_log
                 \<lparr>l_registrationId = Some (registrationId registration),
                  l_razorpay_payment_id = wp_id p,
                  l_razorpay_order_id = wp_order_id p,
                  l_amount = Some (of_int (wp_amount p) / 100),
                  l_status = Log_authorized\<rparr> s1))"

definition handlePaymentCaptured :: "webhook_payment \<Rightarrow> int \<Rightarrow> db \<Rightarrow> db" where
  "handlePaymentCaptured p now s =
     (case findOne (by_order (wp_order_id p)) (regs s) of
        None \<Rightarrow> s
      | Some registration \<Rightarrow>
          (case save now (registration
                   \<lparr>payment_status := Pay_paid,
                    status := Registered,
                    payment := \<lparr>razorpay_payment_id = Some (wp_id p),
                                 razorpay_order_id = wp_order_id p,
                                 razorpay_signature = None,
                                 amount = Some (of_int (wp_amount p) / 100),
                                 pay_state = Some ''paid'',
                                 payment_date = Some now\<rparr>\<rparr>) s of
             Inl _ \<Rightarrow> s
           | Inr s1 \<Rightarrow> s1\<lparr>pays := upsert_log_status (wp_id p) Log_captured (pays s1)\<rparr>))"

definition handlePaymentFailed :: "webhook_payment \<Rightarrow> int \<Rightarrow> db \<Rightarrow> db" where
  "handlePaymentFailed p now s =
     (case findOne (by_order (wp_order_id p)) (regs s) of
        None \<Rightarrow> s
      | Some registration \<Rightarrow>
          (case save now (registration\<lparr>payment_status := Pay_pending,
                                        status := Pending_payment\<rparr>) s of
             Inl _ \<Rightarrow> s
           | Inr s1 \<Rightarrow>
               try_create_log
                 \<lparr>l_registrationId = Some (registrationId registration),
                  l_razorpay_payment_id = wp_id p,
                  l_razorpay_order_id = wp_order_id p,
                  l_amount = Some (of_int (wp_amount p) / 100),
                  l_status = Log_failed\<rparr> s1))"

definition handlePaymentRefunded :: "webhook_payment \<Rightarrow> int \<Rightarrow> db \<Rightarrow> db" where
  "handlePaymentRefunded p now s =
     (case findOne (by_payment (wp_id p)) (regs s) of
        None \<Rightarrow> s
      | Some registration \<Rightarrow>
          (case save now (registration\<lparr>status := Refunded,
                            payment := (payment registration)
                                         \<lparr>pay_state := Some ''refunded''\<rparr>\<rparr>) s of
             Inl _ \<Rightarrow> s
           | Inr s1 \<Rightarrow> s1\<lparr>pays := upsert_log_status (wp_id p) Log_refunded (pays s1)\<rparr>))"

definition dispatch_event :: "string \<Rightarrow> webhook_payment \<Rightarrow> int \<Rightarrow> db \<Rightarrow> db" where
  "dispatch_event event p now s =
     (if event = ''payment.authorized'' then handlePaymentAuthorized p now s
      else if event = ''payment.captured'' then handlePaymentCaptured p now s
      else if event = ''payment.failed'' then handlePaymentFailed p now s
      else if event = ''payment.refunded'' then handlePaymentRefunded p now s
      else s)"

definition handleWebhook :: "runtime \<Rightarrow> webhook_request \<Rightarrow> int \<Rightarrow> db \<Rightarrow> reply \<times> db" where
  "handleWebhook rt req now s =
     (case truthy (wh_signature req) of
        None \<Rightarrow> (Reply 400 No_signature, s)
      | Some signature \<Rightarrow>
          (if \<not> verifyWebhookSignature rt (wh_body req) signature
           then (Reply 400 Invalid_signature, s)
           else (case wh_entity req of
                   None \<Rightarrow> (Reply 500 Webhook_failed, s)
                 | Some p \<Rightarrow>
                     (Reply 200 Webhook_processed, dispatch_event (wh_event req) p now s))))"

section \<open>Runs of the program\<close>

text \<open>
  One request, or one run of the sweep timer, at a time; each has the time it runs at.
  These are all the operations that write to the two collections: the test-cleanup
  endpoint runs the sweep, and the system statistics, the health check, the listings
  and the duplicate-check endpoint write nothing.
\<close>

datatype operation =
    CheckSlots string string string
  | CheckMultipleSlots string string "string list"
  | CarnivalStatistics string
  | Register register_request
  | CreateOrder string "string option"
  | VerifyPayment verify_request
  | GetRegistration string
  | CheckRegistrationStatus string
  | RunCleanup
  | ExpireRegistration string
  | Webhook webhook_request

fun exec :: "runtime \<Rightarrow> operation \<Rightarrow> int \<Rightarrow> db \<Rightarrow> reply \<times> db" where
  "exec rt (CheckSlots c b d) now s = checkSlots rt c b d now s"
| "exec rt (CheckMultipleSlots c d batches) now s = checkMultipleSlots rt c d batches now s"
| "exec rt (CarnivalStatistics c) now s = getCarnivalStatistics rt c now s"
| "exec rt (Register req) now s = register rt req now s"
| "exec rt (CreateOrder rid gateway_order) now s = createOrder rid gateway_order now s"
| "exec rt (VerifyPayment req) now s = verifyPayment rt req now s"
| "exec rt (GetRegistration rid) now s = getRegistration rid now s"
| "exec rt (CheckRegistrationStatus rid) now s = checkRegistrationStatus rt rid now s"
| "exec rt RunCleanup now s = runCleanup now s"
| "exec rt (ExpireRegistration rid) now s = expireRegistration rid s"
| "exec rt (Webhook req) now s = handleWebhook rt req now s"

definition empty_db :: db where
  "empty_db = \<lparr>regs = [], pays = []\<rparr>"

inductive reachable :: "runtime \<Rightarrow> db \<Rightarrow> bool" for rt :: runtime where
  start: "reachable rt empty_db"
| step: "reachable rt s \<Longrightarrow> reachable rt (snd (exec rt op now s))"

fun run :: "runtime \<Rightarrow> (operation \<times> int) list \<Rightarrow> db \<Rightarrow> db" where
  "run rt [] s = s"
| "run rt ((op, now) # rest) s = run rt rest (snd (exec rt op now s))"

section \<open>What every run preserves\<close>

text \<open>
  A stored reservation is well formed when its id is not empty and, as long as it is
  pending_payment, its payment status is pending. In a well-formed collection the ids
  are pairwise distinct (the unique index), and so are the payment ids of the log.
\<close>

definition well_formed :: "reservation \<Rightarrow> bool" where
  "well_formed r =
     (registrationId r \<noteq> [] \<and> (status r \<noteq> Pending_payment \<or> payment_status r = Pay_pending))"

definition consistent :: "db \<Rightarrow> bool" where
  "consistent s =
     (distinct (map registrationId (regs s)) \<and> list_all well_formed (regs s)
      \<and> distinct (map l_razorpay_payment_id (pays s)))"

section \<open>Changing the payment deadline\<close>

text \<open>
  To say that an operation does not read \<open>payment_expires_at\<close>, the field is overwritten
  in every stored reservation (by a value that may depend on the reservation's id) and
  the operation is run on both collections.
\<close>

definition set_expiry :: "(string \<Rightarrow> int option) \<Rightarrow> reservation \<Rightarrow> reservation" where
  "set_expiry f r = r\<lparr>payment_expires_at := f (registrationId r)\<rparr>"

definition with_expiry :: "(string \<Rightarrow> int option) \<Rightarrow> db \<Rightarrow> db" where
  "with_expiry f s = s\<lparr>regs := map (set_expiry f) (regs s)\<rparr>"

section \<open>An environment to evaluate with\<close>

text \<open>
  The theorems below hold for every run-time environment. To evaluate the operations on
  concrete requests, \<open>demo_runtime\<close> fixes one. Its regular expressions cover the
  patterns \<open>^body$\<close> whose body consists of ordinary characters, the dot and parentheses
  used for grouping: a letter matches in either case, the dot matches any character but
  a line break, a group matches what its content matches, and unbalanced parentheses are
  a SyntaxError. No other pattern is evaluated anywhere below. Its digest is a stand-in
  that pairs key and message, its validator makes the checks of
  \<open>validateRegistrationData\<close> that need no regular expression, and it takes every text
  that \<open>new Date(str)\<close> is asked to read for the Invalid Date; no such text is evaluated
  below.
\<close>

definition rx_ordinary :: "char \<Rightarrow> bool" where
  "rx_ordinary ch = (ch \<notin> set ''^$.|?*+()[]{}'' \<and> ch \<noteq> CHR 0x5C)"

fun rx_balanced :: "string \<Rightarrow> nat \<Rightarrow> bool" where
  "rx_balanced [] depth = (depth = 0)"
| "rx_balanced (ch # p) depth =
     (if ch = CHR ''('' then rx_balanced p (Suc depth)
      else if ch = CHR '')'' then (depth > 0 \<and> rx_balanced p (depth - 1))
      else rx_balanced p depth)"

fun rx_test :: "string \<Rightarrow> string \<Rightarrow> bool" where
  "rx_test [] str = (str = [])"
| "rx_test (ch # p) str =
     (if ch = CHR ''('' \<or> ch = CHR '')'' then rx_test p str
      else case str of
             [] \<Rightarrow> False
           | x # xs \<Rightarrow>
               (if ch = CHR ''.'' then x \<noteq> CHR 0x0A \<and> x \<noteq> CHR 0x0D
                else lower_char ch = lower_char x) \<and> rx_test p xs)"

definition demo_RegExp_i :: "string \<Rightarrow> (string \<Rightarrow> bool) option" where
  "demo_RegExp_i pattern =
     (case pattern of
        [] \<Rightarrow> None
      | ch # rest \<Rightarrow>
          if ch = CHR ''^'' \<and> rest \<noteq> [] \<and> last rest = CHR ''$''
             \<and> list_all (\<lambda>x. rx_ordinary x \<or> x \<in> set ''.()'') (butlast rest)
             \<and> rx_balanced (butlast rest) 0
          then Some (rx_test (butlast rest)) else None)"

definition demo_validate :: "register_request \<Rightarrow> int \<Rightarrow> bool" where
  "demo_validate req now =
     (length (trim (req_parentName req)) \<ge> 2
      \<and> trim (req_email req) \<noteq> [] \<and> trim (req_phone req) \<noteq> []
      \<and> length (trim (req_childName req)) \<ge> 2 \<and> trim (req_childAge req) \<noteq> []
      \<and> trim (req_selectedDate req) \<noteq> []
      \<and> validateDate (req_selectedDate req) (req_availableDates req) now \<noteq> None
      \<and> trim (req_selectedBatch req) \<noteq> [])"

definition demo_runtime :: runtime where
  "demo_runtime =
     \<lparr>RegExp_i = demo_RegExp_i,
      createHmac = (\<lambda>key msg. key @ ''/'' @ msg),
      RAZORPAY_KEY_SECRET = Some ''key-secret'',
      WEBHOOK_SECRET = Some ''webhook-secret'',
      validateRegistrationData = demo_validate,
      Date_local = (\<lambda>str. None)\<rparr>"

text \<open>
  Sample data: a request for 26 January 2026 (day 20479), the hold that \<open>register\<close>
  stores for it under a given id at a given time, that hold once paid, and a payment
  record.
\<close>

definition anna_request :: register_request where
  "anna_request =
     \<lparr>req_carnivalName = ''Clay Day'',
      req_selectedDate = ''2026-01-26'',
      req_availableDates = [],
      req_selectedBatch = ''Batch 1 '' @ alarm_clock @ '' 10 AM'',
      req_parentName = ''Maria'',
      req_email = ''Mum@Example.com'',
      req_phone = ''9876543210'',
      req_childName = ''Anna (Annie)'',
      req_childAge = ''7'',
      req_materialType = True\<rparr>"

definition hold :: "string \<Rightarrow> int \<Rightarrow> reservation" where
  "hold rid t =
     \<lparr>registrationId = rid,
      carnivalName = ''Clay Day'',
      parentName = ''Maria'',
      email = ''mum@example.com'',
      phone = ''9876543210'',
      childName = ''Anna (Annie)'',
      childAge = ''7'',
      selectedBatch = ''Batch 1 '' @ alarm_clock @ '' 10 AM'',
      batchTime = ''10 AM'',
      selectedDate = 20479,
      materialType = True,
      status = Pending_payment,
      payment_status = Pay_pending,
      payment = \<lparr>razorpay_payment_id = None, razorpay_order_id = None,
                  razorpay_signature = None, amount = None, pay_state = None,
                  payment_date = None\<rparr>,
      payment_expires_at = Some (t + 900000),
      payment_confirmed_at = None,
      expiredAt = None,
      expiration_reason = None,
      createdAt = t\<rparr>"

definition confirmed_hold :: "string \<Rightarrow> int \<Rightarrow> reservation" where
  "confirmed_hold rid t = (hold rid t)\<lparr>status := Registered, payment_status := Pay_paid\<rparr>"

definition authorized_log :: "string \<Rightarrow> string \<Rightarrow> pay_log" where
  "authorized_log rid pid =
     \<lparr>l_registrationId = Some rid, l_razorpay_payment_id = pid,
      l_razorpay_order_id = Some ''order_1'', l_amount = Some 499,
      l_status = Log_authorized\<rparr>"

definition ordered_hold :: "string \<Rightarrow> int \<Rightarrow> reservation" where
  \<comment> \<open>the hold after \<open>createOrder\<close> has stored the gateway's order id\<close>
  "ordered_hold rid t =
     (hold rid t)\<lparr>payment := (payment (hold rid t))
                     \<lparr>razorpay_order_id := Some ''order_1'', amount := Some 499\<rparr>\<rparr>"

definition anna_payment :: verify_request where
  "anna_payment =
     \<lparr>v_razorpay_payment_id = ''pay_1'',
      v_razorpay_order_id = Some ''order_1'',
      v_razorpay_signature = Some ''key-secret/order_1|pay_1'',
      v_registrationId = ''LS-RD26-00001''\<rparr>"

definition gateway_event :: "string \<Rightarrow> webhook_request" where
  \<comment> \<open>a signed webhook for payment \<open>pay_1\<close> of order \<open>order_1\<close>\<close>
  "gateway_event event =
     \<lparr>wh_signature = Some (''webhook-secret/'' @ event),
      wh_body = event,
      wh_event = event,
      wh_entity = Some \<lparr>wp_id = ''pay_1'', wp_order_id = Some ''order_1'',
                         wp_amount = 49900, wp_currency = ''INR''\<rparr>\<rparr>"

text \<open>
  Sample runs from the empty collections: a registration with its payment order, the
  same with the order created after fifteen minutes, and nineteen confirmed
  reservations of the sample scope.
\<close>

definition unpaid_run :: "(operation \<times> int) list" where
  "unpaid_run =
     [(Register anna_request, 0),
      (CreateOrder ''LS-RD26-00001'' (Some ''order_1''), 1000)]"

definition late_order_run :: "(operation \<times> int) list" where
  "late_order_run =
     [(Register anna_request, 0),
      (CreateOrder ''LS-RD26-00001'' (Some ''order_1''), 901000)]"

definition nineteen_confirmed :: "reservation list" where
  "nineteen_confirmed = map (\<lambda>n. confirmed_hold (''LS-RD26-000'' @ decimal n) 0) [10..<29]"

section \<open>Properties of the slot ledger\<close>

lemma sweep_regs:
  "regs (sweepOldPending c b q t s) = deleteMany (oldPendingQuery c b q t) (regs s)"
  by (simp add: sweepOldPending_def Let_def)

lemma sweep_keeps_paid:
  "countDocuments (paidQuery c b q) (deleteMany (oldPendingQuery c b q t) xs)
     = countDocuments (paidQuery c b q) xs"
proof -
  have "filter (paidQuery c b q) (filter (\<lambda>x. \<not> oldPendingQuery c b q t x) xs)
          = filter (paidQuery c b q) xs"
    by (induction xs) (auto simp: paidQuery_def oldPendingQuery_def)
  then show ?thesis by (simp add: countDocuments_def deleteMany_def)
qed

lemma sweep_keeps_active:
  "countDocuments (activePendingQuery c b q t) (deleteMany (oldPendingQuery c b q t) xs)
     = countDocuments (activePendingQuery c b q t) xs"
proof -
  have "filter (activePendingQuery c b q t) (filter (\<lambda>x. \<not> oldPendingQuery c b q t x) xs)
          = filter (activePendingQuery c b q t) xs"
    by (induction xs) (auto simp: activePendingQuery_def oldPendingQuery_def)
  then show ?thesis by (simp add: countDocuments_def deleteMany_def)
qed

lemma slotSnapshot_regs:
  "regs (snd (slotSnapshot c b q now s))
     = deleteMany (oldPendingQuery c b q (now - 600000)) (regs s)"
proof -
  have "countDocuments (oldPendingQuery c b q t) xs \<le> 0
          \<Longrightarrow> deleteMany (oldPendingQuery c b q t) xs = xs" for t xs
    by (simp add: countDocuments_def deleteMany_def filter_empty_conv)
  then show ?thesis
    by (simp add: slotSnapshot_def Let_def sweep_regs
        DELETE_PENDING_AFTER_MINUTES_def not_less)
qed

lemma checkSlot_regs:
  "regs (snd (checkSlotAvailability rt c b d now s))
     = deleteMany (sweptQuery rt c b d (now - 600000)) (regs s)"
proof (cases "parseDateForQuery rt d")
  case None
  then have "sweptQuery rt c b d (now - 600000) = (\<lambda>r. False)"
    by (simp add: fun_eq_iff sweptQuery_def)
  with None show ?thesis
    by (simp add: checkSlotAvailability_def deleteMany_def)
next
  case (Some q)
  then have "sweptQuery rt c b d (now - 600000) = oldPendingQuery c b q (now - 600000)"
    by (simp add: fun_eq_iff sweptQuery_def)
  with Some show ?thesis
    by (simp add: checkSlotAvailability_def slotSnapshot_regs)
qed

lemma sweep_eq:
  "sweepOldPending c b q t s = s\<lparr>regs := deleteMany (oldPendingQuery c b q t) (regs s)\<rparr>"
proof -
  have "filter (oldPendingQuery c b q t) (deleteMany (oldPendingQuery c b q t) xs) = []" for xs
    by (simp add: deleteMany_def)
  then show ?thesis
    by (simp add: sweepOldPending_def Let_def)
qed

lemma sweep_pays: "pays (sweepOldPending c b q t s) = pays s"
  by (simp add: sweep_eq)

lemma slotSnapshot_pays: "pays (snd (slotSnapshot c b q now s)) = pays s"
  by (simp add: slotSnapshot_def Let_def sweep_pays)

lemma checkSlot_pays: "pays (snd (checkSlotAvailability rt c b d now s)) = pays s"
  by (simp add: checkSlotAvailability_def slotSnapshot_pays split: option.splits)

text \<open>
  The availability query changes the reservations by deleting what it sweeps, and
  nothing else.
\<close>

lemma checkSlot_state:
  "snd (checkSlotAvailability rt c b d now s)
     = s\<lparr>regs := deleteMany (sweptQuery rt c b d (now - 600000)) (regs s)\<rparr>"
proof -
  have "x = s\<lparr>regs := regs x\<rparr>" if "pays x = pays s" for x :: db
    using that by (cases x; cases s) simp
  from this [OF checkSlot_pays] show ?thesis
    by (simp add: checkSlot_regs)
qed

text \<open>
  C1. The date of a query is the day its date argument is parsed to, and its scope is
  the trimmed event name, the trimmed batch and that day. When the date is not the
  exempted online date 2026-01-25, the snapshot's remaining count is
  \<open>max 0 (20 - (confirmed + active holds))\<close>, where the confirmed count is the number of
  reservations of the scope that are registered and paid and the hold count is the
  number that are pending_payment/pending and created within the last 10 minutes
  (counted in the collection as the query leaves it, which is also what it was before);
  \<open>isFull\<close> holds exactly when the remaining count is 0. On the exempted date \<open>isFull\<close> is
  false whatever the occupancy. (A date argument that is no date at all is in no scope:
  both counts are 0 and the snapshot reports 20 remaining.)
\<close>

theorem C1_availability_snapshot:
  fixes rt :: runtime and c b :: string and d :: date_arg and now :: int and s :: db
  defines "snap \<equiv> fst (checkSlotAvailability rt c b d now s)"
      and "s' \<equiv> snd (checkSlotAvailability rt c b d now s)"
      and "confirmed \<equiv> \<lambda>xs. int (length (filter (\<lambda>r. carnivalName r = trim c
              \<and> selectedBatch r = trim b \<and> Some (selectedDate r) = parseDateForQuery rt d
              \<and> status r = Registered \<and> payment_status r = Pay_paid) xs))"
      and "holds \<equiv> \<lambda>xs. int (length (filter (\<lambda>r. carnivalName r = trim c
              \<and> selectedBatch r = trim b \<and> Some (selectedDate r) = parseDateForQuery rt d
              \<and> status r = Pending_payment \<and> payment_status r = Pay_pending
              \<and> createdAt r \<ge> now - 10 * 60 * 1000) xs))"
  shows "(map_option toISODate (parseDateForQuery rt d) \<noteq> Some ''2026-01-25'' \<longrightarrow>
            availableSlots snap = max 0 (20 - (confirmed (regs s') + holds (regs s')))
          \<and> paidCount snap = confirmed (regs s') \<and> activePendingCount snap = holds (regs s')
          \<and> confirmed (regs s') = confirmed (regs s) \<and> holds (regs s') = holds (regs s)
          \<and> (isFull snap \<longleftrightarrow> availableSlots snap = 0))
       \<and> (map_option toISODate (parseDateForQuery rt d) = Some ''2026-01-25'' \<longrightarrow>
            \<not> isFull snap)"
proof (cases "parseDateForQuery rt d")
  case None
  have "confirmed xs = 0" "holds xs = 0" for xs
    by (simp_all add: confirmed_def holds_def None)
  moreover have "snap = errorSnapshot"
    by (simp add: snap_def checkSlotAvailability_def None)
  ultimately show ?thesis
    by (simp add: None errorSnapshot_def BATCH_CAPACITY_def)
next
  case (Some q)
  let ?t = "now - 600000"
  have snap: "snap = fst (slotSnapshot c b q now s)" and s': "s' = snd (slotSnapshot c b q now s)"
    by (simp_all add: snap_def s'_def checkSlotAvailability_def Some)
  have pq: "paidQuery c b q = (\<lambda>r. carnivalName r = trim c \<and> selectedBatch r = trim b
              \<and> Some (selectedDate r) = parseDateForQuery rt d
              \<and> status r = Registered \<and> payment_status r = Pay_paid)"
    by (auto simp: fun_eq_iff paidQuery_def in_scope_def Some)
  have aq: "activePendingQuery c b q ?t = (\<lambda>r. carnivalName r = trim c \<and> selectedBatch r = trim b
              \<and> Some (selectedDate r) = parseDateForQuery rt d
              \<and> status r = Pending_payment \<and> payment_status r = Pay_pending
              \<and> createdAt r \<ge> now - 10 * 60 * 1000)"
    by (auto simp: fun_eq_iff activePendingQuery_def in_scope_def Some)
  have c_eq: "confirmed xs = countDocuments (paidQuery c b q) xs" for xs
    by (simp add: confirmed_def countDocuments_def pq)
  have h_eq: "holds xs = countDocuments (activePendingQuery c b q ?t) xs" for xs
    by (simp add: holds_def countDocuments_def aq)
  have r: "regs s' = deleteMany (oldPendingQuery c b q ?t) (regs s)"
    unfolding s' by (rule slotSnapshot_regs)
  have keep: "confirmed (regs s') = confirmed (regs s)" "holds (regs s') = holds (regs s)"
    by (simp_all add: c_eq h_eq r sweep_keeps_paid sweep_keeps_active)
  have snap_paid: "paidCount snap = countDocuments (paidQuery c b q) (regs s')"
    and snap_act: "activePendingCount snap
                     = countDocuments (activePendingQuery c b q ?t) (regs s')"
    unfolding snap s'
    by (simp_all add: slotSnapshot_def Let_def DELETE_PENDING_AFTER_MINUTES_def)
  have avail: "toISODate q \<noteq> ''2026-01-25'' \<Longrightarrow>
      availableSlots snap = max 0 (20 - (paidCount snap + activePendingCount snap))"
    unfolding snap
    by (simp add: slotSnapshot_def Let_def BATCH_CAPACITY_def)
  have full: "toISODate q \<noteq> ''2026-01-25'' \<Longrightarrow> isFull snap \<longleftrightarrow> availableSlots snap = 0"
    unfolding snap by (simp add: slotSnapshot_def Let_def)
  have online: "toISODate q = ''2026-01-25'' \<Longrightarrow> \<not> isFull snap"
    unfolding snap by (simp add: slotSnapshot_def Let_def)
  show ?thesis
    using keep snap_paid snap_act avail full online by (simp add: c_eq h_eq Some)
qed


text \<open>
  What the platform functions give on the dates used below: the exempted date is day
  20478 however its month is written, and a stored \<open>Date\<close> is its own query date.
\<close>

lemma parse_sample_dates:
  "parseDateForQuery rt (Date_string ''2026-01-25'') = Some 20478"
  "parseDateForQuery rt (Date_string ''2026-1-25'') = Some 20478"
  "parseDateForQuery rt (Date_string ''2026-01-26'') = Some 20479"
  "parseDateForQuery rt (Date_object date) = Some date"
  "toISODate 20478 = ''2026-01-25''"
  "toISODate 20479 = ''2026-01-26''"
proof -
  have p: "split_dash ''2026-01-25'' = [''2026'', ''01'', ''25'']"
    "split_dash ''2026-1-25'' = [''2026'', ''1'', ''25'']"
    "split_dash ''2026-01-26'' = [''2026'', ''01'', ''26'']"
    by simp_all
  have n: "parseInt ''2026'' = Some 2026" "parseInt ''01'' = Some 1" "parseInt ''1'' = Some 1"
    "parseInt ''25'' = Some 25" "parseInt ''26'' = Some 26"
    by code_simp+
  have u: "Date_UTC (Some 2026) (Some 0) (Some 25) = Some 20478"
    "Date_UTC (Some 2026) (Some 0) (Some 26) = Some 20479"
    by code_simp+
  show "parseDateForQuery rt (Date_string ''2026-01-25'') = Some 20478"
    "parseDateForQuery rt (Date_string ''2026-1-25'') = Some 20478"
    "parseDateForQuery rt (Date_string ''2026-01-26'') = Some 20479"
    by (simp_all add: parseDateForQuery_def p n u del: split_dash.simps)
  show "parseDateForQuery rt (Date_object date) = Some date"
    by (simp add: parseDateForQuery_def)
  show "toISODate 20478 = ''2026-01-25''" "toISODate 20479 = ''2026-01-26''"
    by code_simp+
qed

theorem C1_availability_snapshot_witness:
  "map_option toISODate (parseDateForQuery demo_runtime (Date_string ''2026-1-26''))
     \<noteq> Some ''2026-01-25''
   \<and> availableSlots (fst (checkSlotAvailability demo_runtime '' Clay Day ''
         (''Batch 1 '' @ alarm_clock @ '' 10 AM '') (Date_string ''2026-1-26'') 700000
         \<lparr>regs = confirmed_hold ''LS-RD26-00001'' 0 # hold ''LS-RD26-00002'' 0
                   # nineteen_confirmed, pays = []\<rparr>)) = 0
   \<and> isFull (fst (checkSlotAvailability demo_runtime '' Clay Day ''
         (''Batch 1 '' @ alarm_clock @ '' 10 AM '') (Date_string ''2026-1-26'') 700000
         \<lparr>regs = confirmed_hold ''LS-RD26-00001'' 0 # hold ''LS-RD26-00002'' 0
                   # nineteen_confirmed, pays = []\<rparr>))
   \<and> map_option toISODate (parseDateForQuery demo_runtime (Date_string ''2026-1-25''))
     = Some ''2026-01-25''
   \<and> registeredCount (fst (checkSlotAvailability demo_runtime ''Clay Day''
         (''Batch 1 '' @ alarm_clock @ '' 10 AM'') (Date_string ''2026-1-25'') 700000
         \<lparr>regs = map (\<lambda>r. r\<lparr>selectedDate := 20478\<rparr>)
                   (confirmed_hold ''LS-RD26-00030'' 0 # confirmed_hold ''LS-RD26-00031'' 0
                    # nineteen_confirmed), pays = []\<rparr>)) = 21
   \<and> \<not> isFull (fst (checkSlotAvailability demo_runtime ''Clay Day''
         (''Batch 1 '' @ alarm_clock @ '' 10 AM'') (Date_string ''2026-1-25'') 700000
         \<lparr>regs = map (\<lambda>r. r\<lparr>selectedDate := 20478\<rparr>)
                   (confirmed_hold ''LS-RD26-00030'' 0 # confirmed_hold ''LS-RD26-00031'' 0
                    # nineteen_confirmed), pays = []\<rparr>))"
proof -
  let ?b = "''Batch 1 '' @ alarm_clock @ '' 10 AM''"
  let ?b' = "''Batch 1 '' @ alarm_clock @ '' 10 AM ''"
  let ?s = "\<lparr>regs = confirmed_hold ''LS-RD26-00001'' 0 # hold ''LS-RD26-00002'' 0
                     # nineteen_confirmed, pays = []\<rparr>"
  let ?online = "\<lparr>regs = map (\<lambda>r. r\<lparr>selectedDate := 20478\<rparr>)
                   (confirmed_hold ''LS-RD26-00030'' 0 # confirmed_hold ''LS-RD26-00031'' 0
                    # nineteen_confirmed), pays = []\<rparr>"
  have d: "map_option toISODate (parseDateForQuery demo_runtime (Date_string ''2026-1-26''))
             \<noteq> Some ''2026-01-25''"
    by code_simp
  have a: "availableSlots (fst (checkSlotAvailability demo_runtime '' Clay Day '' ?b'
             (Date_string ''2026-1-26'') 700000 ?s)) = 0"
    by code_simp
  have "isFull (fst (checkSlotAvailability demo_runtime '' Clay Day '' ?b'
            (Date_string ''2026-1-26'') 700000 ?s))
          \<longleftrightarrow> availableSlots (fst (checkSlotAvailability demo_runtime '' Clay Day '' ?b'
                  (Date_string ''2026-1-26'') 700000 ?s)) = 0"
    using C1_availability_snapshot [of demo_runtime "Date_string ''2026-1-26''" "'' Clay Day ''"
        ?b' 700000 ?s] d
    by blast
  then have f: "isFull (fst (checkSlotAvailability demo_runtime '' Clay Day '' ?b'
                  (Date_string ''2026-1-26'') 700000 ?s))"
    using a by simp
  have e: "map_option toISODate (parseDateForQuery demo_runtime (Date_string ''2026-1-25''))
             = Some ''2026-01-25''"
    by code_simp
  have o: "\<not> isFull (fst (checkSlotAvailability demo_runtime ''Clay Day'' ?b
                  (Date_string ''2026-1-25'') 700000 ?online))"
    using C1_availability_snapshot [of demo_runtime "Date_string ''2026-1-25''" "''Clay Day''"
        ?b 700000 ?online] e
    by blast
  have c: "registeredCount (fst (checkSlotAvailability demo_runtime ''Clay Day'' ?b
             (Date_string ''2026-1-25'') 700000 ?online)) = 21"
    by code_simp
  from d a f e c o show ?thesis by blast
qed

text \<open>
  C9 (the code departs from the claim). The availability query deletes the stale hold
  of the queried scope, but the payment records of that hold stay: the ids to cascade to
  are looked up after the holds are gone, so none is found. Here the hold LS-RD26-00001
  was registered at time 0, its payment was authorized (which logged a payment record),
  and the availability of its scope is queried after eleven minutes and forty seconds.
\<close>

theorem C9_lazy_sweep_keeps_payment_records:
  "map registrationId
     (regs (run demo_runtime (unpaid_run @ [(Webhook (gateway_event ''payment.authorized''), 2000)])
        empty_db))
     = [''LS-RD26-00001'']
   \<and> regs (snd (checkSlotAvailability demo_runtime ''Clay Day''
         (''Batch 1 '' @ alarm_clock @ '' 10 AM'') (Date_string ''2026-01-26'') 700000
         (run demo_runtime (unpaid_run @ [(Webhook (gateway_event ''payment.authorized''), 2000)])
            empty_db))) = []
   \<and> map (\<lambda>l. (l_registrationId l, l_razorpay_payment_id l, l_status l))
       (pays (snd (checkSlotAvailability demo_runtime ''Clay Day''
         (''Batch 1 '' @ alarm_clock @ '' 10 AM'') (Date_string ''2026-01-26'') 700000
         (run demo_runtime (unpaid_run @ [(Webhook (gateway_event ''payment.authorized''), 2000)])
            empty_db))))
     = [(Some ''LS-RD26-00001'', ''pay_1'', Log_authorized)]"
  by code_simp

subsection \<open>Collection primitives\<close>

lemma findOne_Some: "findOne q xs = Some x \<Longrightarrow> x \<in> set xs \<and> q x"
  by (auto simp: findOne_def find_Some_iff)

lemma findOne_None: "findOne q xs = None \<longleftrightarrow> (\<forall>x\<in>set xs. \<not> q x)"
  by (auto simp: findOne_def find_None_iff)

lemma set_deleteOne: "set (deleteOne q xs) \<subseteq> set xs"
  by (induction xs) auto

lemma map_deleteOne_distinct:
  "distinct (map f xs) \<Longrightarrow> distinct (map f (deleteOne q xs))"
proof (induction xs)
  case Nil
  then show ?case by simp
next
  case (Cons x xs)
  have "f ` set (deleteOne q xs) \<subseteq> f ` set xs"
    using set_deleteOne by (rule image_mono)
  with Cons show ?case by auto
qed

lemma findOne_deleteOne:
  "distinct (map registrationId xs) \<Longrightarrow> findOne (by_id rid) (deleteOne (by_id rid) xs) = None"
proof (induction xs)
  case Nil
  then show ?case by (simp add: findOne_def)
next
  case (Cons x xs)
  show ?case
  proof (cases "by_id rid x")
    case True
    then have "\<forall>y\<in>set xs. \<not> by_id rid y"
      using Cons.prems by (force simp: by_id_def image_iff)
    with True show ?thesis by (simp add: findOne_None)
  next
    case False
    with Cons show ?thesis by (simp add: findOne_def)
  qed
qed

lemma consistent_regs_subset:
  assumes "consistent s" "distinct (map registrationId xs)" "set xs \<subseteq> set (regs s)"
  shows "consistent (s\<lparr>regs := xs\<rparr>)"
  using assms by (auto simp: consistent_def list_all_iff)

lemma consistent_deleteMany_regs:
  "consistent s \<Longrightarrow> consistent (s\<lparr>regs := deleteMany q (regs s)\<rparr>)"
  by (rule consistent_regs_subset) (auto simp: deleteMany_def consistent_def distinct_map_filter)

lemma consistent_delete_registration:
  "consistent s \<Longrightarrow> consistent (delete_registration rid s)"
  unfolding delete_registration_def
  by (rule consistent_regs_subset)
     (auto simp: consistent_def map_deleteOne_distinct dest: set_deleteOne [THEN subsetD])

lemma consistent_deleteMany_pays:
  "consistent s \<Longrightarrow> consistent (s\<lparr>pays := deleteMany q (pays s)\<rparr>)"
  by (simp add: consistent_def deleteMany_def distinct_map_filter)

lemma consistent_delete_payment_records:
  "consistent s \<Longrightarrow> consistent (delete_payment_records rid s)"
  unfolding delete_payment_records_def by (rule consistent_deleteMany_pays)

lemma consistent_sweep: "consistent s \<Longrightarrow> consistent (sweepOldPending c b d t s)"
  by (simp add: sweep_eq consistent_deleteMany_regs)

lemma consistent_checkSlot:
  "consistent s \<Longrightarrow> consistent (snd (checkSlotAvailability rt c b d now s))"
  by (simp add: checkSlot_state consistent_deleteMany_regs)

lemma well_formed_pre_save: "well_formed r \<Longrightarrow> well_formed (pre_save now r)"
  by (auto simp: pre_save_def well_formed_def split: option.splits)

lemma registrationId_pre_save [simp]: "registrationId (pre_save now r) = registrationId r"
  by (simp add: pre_save_def split: option.splits)

lemma consistent_save:
  assumes "consistent s" "well_formed r" "save now r s = Inr s'"
  shows "consistent s'"
proof -
  let ?f = "\<lambda>x. if registrationId x = registrationId r then pre_save now r else x"
  from assms(3) have s': "s' = s\<lparr>regs := map ?f (regs s)\<rparr>"
    by (auto simp: save_def split: if_splits)
  have ids: "map registrationId (map ?f xs) = map registrationId xs" for xs
    by (induction xs) auto
  have wf: "list_all well_formed (map ?f xs)" if "list_all well_formed xs" for xs
    using that assms(2) by (induction xs) (auto simp: well_formed_pre_save)
  have r: "regs s' = map ?f (regs s)" and p: "pays s' = pays s"
    unfolding s' by simp_all
  have a: "distinct (map registrationId (regs s))" and b: "list_all well_formed (regs s)"
    and c: "distinct (map l_razorpay_payment_id (pays s))"
    using assms(1) by (simp_all add: consistent_def)
  have "distinct (map registrationId (regs s'))"
    using a by (simp only: r ids)
  moreover have "list_all well_formed (regs s')"
    using wf [OF b] by (simp only: r)
  moreover have "distinct (map l_razorpay_payment_id (pays s'))"
    using c by (simp only: p)
  ultimately show ?thesis by (simp add: consistent_def)
qed

lemma consistent_save_new:
  assumes "consistent s" "well_formed r" "save_new now r s = Inr s'"
  shows "consistent s'"
  using assms
  by (auto simp: save_new_def consistent_def well_formed_pre_save split: if_splits)

lemma consistent_try_create_log: "consistent s \<Longrightarrow> consistent (try_create_log l s)"
  by (auto simp: try_create_log_def create_log_def consistent_def split: sum.splits if_splits)

lemma map_updateFirst_id:
  "(\<And>x. g (f x) = g x) \<Longrightarrow> map g (updateFirst q f xs) = map g xs"
  by (induction xs) auto

lemma consistent_upsert_log:
  "consistent s \<Longrightarrow> consistent (s\<lparr>pays := upsert_log_status pid st (pays s)\<rparr>)"
  by (auto simp: upsert_log_status_def consistent_def map_updateFirst_id findOne_None
           split: option.splits)


subsection \<open>Every operation keeps the collections consistent\<close>

lemma hold_is_new_registration: "hold rid t = new_registration rid anna_request 20479 t"
proof -
  have "trim ''Clay Day'' = ''Clay Day''"
    "trim (trim ''Maria'') = ''Maria''"
    "trim (toLowerCase (trim (toLowerCase ''Mum@Example.com''))) = ''mum@example.com''"
    "trim (trim ''9876543210'') = ''9876543210''"
    "trim (trim ''Anna (Annie)'') = ''Anna (Annie)''"
    "trim (trim ''7'') = ''7''"
    "trim (trim (''Batch 1 '' @ alarm_clock @ '' 10 AM'')) = ''Batch 1 '' @ alarm_clock @ '' 10 AM''"
    "trim (extractBatchTime (''Batch 1 '' @ alarm_clock @ '' 10 AM'')) = ''10 AM''"
    by code_simp+
  then show ?thesis
    by (simp add: hold_def new_registration_def anna_request_def MAX_PENDING_MINUTES_def)
qed

lemma well_formed_member:
  "consistent s \<Longrightarrow> findOne q (regs s) = Some r \<Longrightarrow> well_formed r"
  by (auto simp: consistent_def list_all_iff dest: findOne_Some)

lemma consistent_checkSlots:
  "consistent s \<Longrightarrow> consistent (snd (checkSlots rt c b d now s))"
  using consistent_checkSlot [of s rt c b "Date_string d" now]
  by (auto simp: checkSlots_def split: prod.splits)

lemma consistent_checkMultipleSlotsAvailability:
  "consistent s \<Longrightarrow> consistent (snd (checkMultipleSlotsAvailability rt c d batches now s))"
proof (induction batches arbitrary: s)
  case Nil
  then show ?case by simp
next
  case (Cons batch batches)
  have "consistent (snd (checkSlotAvailability rt c batch d now s))"
    using Cons.prems by (rule consistent_checkSlot)
  then have "consistent (snd (checkMultipleSlotsAvailability rt c d batches now
                                (snd (checkSlotAvailability rt c batch d now s))))"
    by (rule Cons.IH)
  then show ?case
    by (simp add: split_beta)
qed

lemma consistent_checkMultipleSlots:
  "consistent s \<Longrightarrow> consistent (snd (checkMultipleSlots rt c d batches now s))"
  by (simp add: checkMultipleSlots_def split_beta consistent_checkMultipleSlotsAvailability)

lemma consistent_carnivalDateStats:
  "consistent s \<Longrightarrow> consistent (carnivalDateStats rt c dates now s)"
proof (induction dates arbitrary: s)
  case Nil
  then show ?case by simp
next
  case (Cons date dates)
  show ?case
    by (simp add: split_beta Let_def Cons.IH Cons.prems consistent_checkMultipleSlotsAvailability)
qed

lemma consistent_getCarnivalStatistics:
  "consistent s \<Longrightarrow> consistent (snd (getCarnivalStatistics rt c now s))"
  by (simp add: getCarnivalStatistics_def consistent_carnivalDateStats)

lemma generateRegistrationId_nonempty: "generateRegistrationId xs \<noteq> []"
  by (simp add: generateRegistrationId_def Let_def)

lemma well_formed_new_registration:
  "rid \<noteq> [] \<Longrightarrow> well_formed (new_registration rid req date now)"
  by (simp add: well_formed_def new_registration_def)

lemma consistent_create_registration:
  "consistent s \<Longrightarrow> consistent (snd (create_registration rt req date now s))"
proof -
  assume c: "consistent s"
  have new: "consistent s2"
    if "checkSlotAvailability rt c' b d now s = (info, s1)"
      and "save_new now (new_registration (generateRegistrationId (regs s1)) req date now) s1
             = Inr s2"
    for c' b d info s1 s2
  proof -
    have "consistent s1"
      using consistent_checkSlot [OF c, of rt c' b d now] that(1) by simp
    then show ?thesis
      using well_formed_new_registration [OF generateRegistrationId_nonempty] that(2)
      by (rule consistent_save_new)
  qed
  have slot: "consistent s1" if "checkSlotAvailability rt c' b d now s = (info, s1)"
    for c' b d info s1
    using consistent_checkSlot [OF c, of rt c' b d now] that by simp
  show ?thesis
    using c
    by (auto simp: create_registration_def Let_def split: prod.splits sum.splits
        intro: new slot)
qed

lemma consistent_register: "consistent s \<Longrightarrow> consistent (snd (register rt req now s))"
  by (simp add: register_def check_and_create_def Let_def consistent_create_registration
      split: option.splits)

lemma consistent_createOrder:
  "consistent s \<Longrightarrow> consistent (snd (createOrder rid gateway_order now s))"
proof -
  assume c: "consistent s"
  have "consistent s'"
    if "findOne (by_id rid) (regs s) = Some r"
      and "save now (r\<lparr>payment := p\<rparr>) s = Inr s'" for r p s'
  proof -
    have "well_formed (r\<lparr>payment := p\<rparr>)"
      using well_formed_member [OF c that(1)] by (simp add: well_formed_def)
    with c show ?thesis using that(2) by (rule consistent_save)
  qed
  then show ?thesis
    using c by (auto simp: createOrder_def split: option.splits sum.splits)
qed

lemma consistent_delete_both:
  "consistent s \<Longrightarrow> consistent (delete_payment_records rid (delete_registration rid s))"
  by (simp add: consistent_delete_payment_records consistent_delete_registration)

lemma well_formed_paid: "well_formed r \<Longrightarrow> well_formed (paid_registration req r now)"
  by (simp add: well_formed_def paid_registration_def)

lemma consistent_verifyPayment:
  "consistent s \<Longrightarrow> consistent (snd (verifyPayment rt req now s))"
proof -
  assume c: "consistent s"
  have fin: "consistent (try_create_log l s2)"
    if "findOne (by_id (v_registrationId req)) (regs s) = Some r"
      and "checkSlotAvailability rt c' b d now s = (info, s1)"
      and "save now (paid_registration req r now) s1 = Inr s2" for r c' b d info s1 s2 l
  proof -
    have "consistent s1"
      using consistent_checkSlot [OF c, of rt c' b d now] that(2) by simp
    moreover have "well_formed (paid_registration req r now)"
      using well_formed_member [OF c that(1)] by (rule well_formed_paid)
    ultimately have "consistent s2"
      using that(3) by (rule consistent_save)
    then show ?thesis by (rule consistent_try_create_log)
  qed
  have slot: "consistent s1" if "checkSlotAvailability rt c' b d now s = (info, s1)"
    for c' b d info s1
    using consistent_checkSlot [OF c, of rt c' b d now] that by simp
  show ?thesis
    using c
    by (auto simp: verifyPayment_def consistent_delete_both
        split: option.splits sum.splits prod.splits intro: fin slot)
qed

lemma consistent_getRegistration:
  "consistent s \<Longrightarrow> consistent (snd (getRegistration rid now s))"
  by (auto simp: getRegistration_def Let_def consistent_delete_registration
      split: option.splits)

lemma consistent_checkRegistrationStatus:
  "consistent s \<Longrightarrow> consistent (snd (checkRegistrationStatus rt rid now s))"
proof -
  assume c: "consistent s"
  have slot: "consistent s1" if "checkSlotAvailability rt c' b d now s = (info, s1)"
    for c' b d info s1
    using consistent_checkSlot [OF c, of rt c' b d now] that by simp
  show ?thesis
    using c
    by (auto simp: checkRegistrationStatus_def Let_def consistent_delete_registration
        split: option.splits prod.splits intro: slot)
qed

lemma consistent_cleanup:
  "consistent s \<Longrightarrow> consistent (snd (cleanupExpiredRegistrations now s))"
proof -
  assume c: "consistent s"
  have "consistent \<lparr>regs = deleteMany q (regs s), pays = deleteMany q' (pays s)\<rparr>" for q q'
    using c by (auto simp: consistent_def deleteMany_def distinct_map_filter list_all_iff)
  then show ?thesis
    using c by (simp add: cleanupExpiredRegistrations_def Let_def)
qed

lemma consistent_runCleanup: "consistent s \<Longrightarrow> consistent (snd (runCleanup now s))"
  using consistent_cleanup [of s now]
  by (auto simp: runCleanup_def split: prod.splits)

lemma consistent_expireRegistration:
  "consistent s \<Longrightarrow> consistent (snd (expireRegistration rid s))"
  by (auto simp: expireRegistration_def consistent_delete_both split: option.splits)


lemma consistent_handlePaymentAuthorized:
  "consistent s \<Longrightarrow> consistent (handlePaymentAuthorized p now s)"
proof -
  assume c: "consistent s"
  have "consistent (try_create_log l s1)"
    if "findOne q (regs s) = Some r"
      and "save now (r\<lparr>payment_status := Pay_pending, payment := pi\<rparr>) s = Inr s1"
    for q r pi s1 l
  proof -
    have "well_formed (r\<lparr>payment_status := Pay_pending, payment := pi\<rparr>)"
      using well_formed_member [OF c that(1)] by (simp add: well_formed_def)
    with c have "consistent s1" using that(2) by (rule consistent_save)
    then show ?thesis by (rule consistent_try_create_log)
  qed
  then show ?thesis
    using c by (auto simp: handlePaymentAuthorized_def split: option.splits sum.splits)
qed

lemma consistent_handlePaymentCaptured:
  "consistent s \<Longrightarrow> consistent (handlePaymentCaptured p now s)"
proof -
  assume c: "consistent s"
  have "consistent (s1\<lparr>pays := upsert_log_status pid st (pays s1)\<rparr>)"
    if "findOne q (regs s) = Some r"
      and "save now (r\<lparr>payment_status := Pay_paid, status := Registered, payment := pi\<rparr>) s
             = Inr s1"
    for q r pi s1 pid st
  proof -
    have "well_formed (r\<lparr>payment_status := Pay_paid, status := Registered, payment := pi\<rparr>)"
      using well_formed_member [OF c that(1)] by (simp add: well_formed_def)
    with c have "consistent s1" using that(2) by (rule consistent_save)
    then show ?thesis by (rule consistent_upsert_log)
  qed
  then show ?thesis
    using c by (auto simp: handlePaymentCaptured_def split: option.splits sum.splits)
qed

lemma consistent_handlePaymentFailed:
  "consistent s \<Longrightarrow> consistent (handlePaymentFailed p now s)"
proof -
  assume c: "consistent s"
  have "consistent (try_create_log l s1)"
    if "findOne q (regs s) = Some r"
      and "save now (r\<lparr>payment_status := Pay_pending, status := Pending_payment\<rparr>) s = Inr s1"
    for q r s1 l
  proof -
    have "well_formed (r\<lparr>payment_status := Pay_pending, status := Pending_payment\<rparr>)"
      using well_formed_member [OF c that(1)] by (simp add: well_formed_def)
    with c have "consistent s1" using that(2) by (rule consistent_save)
    then show ?thesis by (rule consistent_try_create_log)
  qed
  then show ?thesis
    using c by (auto simp: handlePaymentFailed_def split: option.splits sum.splits)
qed

text \<open>The refund handler writes nothing: the status it assigns is not in the enum.\<close>

lemma handlePaymentRefunded_unchanged: "handlePaymentRefunded p now s = s"
  by (simp add: handlePaymentRefunded_def save_def status_enum_def split: option.splits)

lemma consistent_dispatch_event:
  "consistent s \<Longrightarrow> consistent (dispatch_event event p now s)"
  by (simp add: dispatch_event_def consistent_handlePaymentAuthorized
      consistent_handlePaymentCaptured consistent_handlePaymentFailed
      handlePaymentRefunded_unchanged)

lemma consistent_handleWebhook:
  "consistent s \<Longrightarrow> consistent (snd (handleWebhook rt req now s))"
  by (auto simp: handleWebhook_def consistent_dispatch_event split: option.splits)

lemma consistent_exec: "consistent s \<Longrightarrow> consistent (snd (exec rt op now s))"
  by (cases op)
     (simp_all add: consistent_checkSlots consistent_checkMultipleSlots
        consistent_getCarnivalStatistics consistent_register consistent_createOrder
        consistent_verifyPayment consistent_getRegistration consistent_checkRegistrationStatus
        consistent_runCleanup consistent_expireRegistration consistent_handleWebhook)

lemma reachable_consistent: "reachable rt s \<Longrightarrow> consistent s"
proof (induction rule: reachable.induct)
  case start
  show ?case by (simp add: consistent_def empty_db_def)
next
  case (step s op now)
  then show ?case by (simp add: consistent_exec)
qed

lemma reachable_run: "reachable rt s \<Longrightarrow> reachable rt (run rt ops s)"
proof (induction ops arbitrary: s)
  case Nil
  then show ?case by simp
next
  case (Cons a ops)
  obtain op now where a: "a = (op, now)" by (cases a)
  from Cons.prems have "reachable rt (snd (exec rt op now s))" by (rule reachable.step)
  then show ?case unfolding a by (simp add: Cons.IH)
qed


section \<open>Lazy expiry on lookup\<close>

lemma findOne_by_id: "findOne (by_id rid) xs = Some r \<Longrightarrow> registrationId r = rid"
  by (auto simp: by_id_def dest: findOne_Some)

lemma lookup_after_delete:
  "consistent s \<Longrightarrow> findOne (by_id rid) (regs (delete_registration rid s)) = None"
  by (simp add: delete_registration_def consistent_def findOne_deleteOne)

lemma regs_delete_payment_records [simp]: "regs (delete_payment_records rid s) = regs s"
  by (simp add: delete_payment_records_def)

text \<open>
  C5. A reservation that is pending_payment and older than ten minutes is deleted by
  each of the three lookups by code, which reply with the expiry error (404 for the
  details and the status check, 400 for verify-payment) and not with its data; after
  any of them a lookup of the same code finds nothing, and the three operations answer
  404 not found. The state is any state a run of the program reaches; verify-payment is
  a request that carries the code and a payment id, the two fields it requires before
  it looks anything up.
\<close>

theorem C5_lazy_expiry_on_lookup:
  assumes "reachable rt s"
    and "findOne (by_id rid) (regs s) = Some r"
    and "status r = Pending_payment"
    and "createdAt r < now - 10 * 60 * 1000"
    and "v_registrationId req = rid" and "v_razorpay_payment_id req \<noteq> []"
    and "s' \<in> {snd (getRegistration rid now s), snd (checkRegistrationStatus rt rid now s),
                 snd (verifyPayment rt req now s)}"
  shows "fst (getRegistration rid now s) = Reply 404 Expired_deleted
       \<and> fst (checkRegistrationStatus rt rid now s) = Reply 404 Expired_deleted
       \<and> fst (verifyPayment rt req now s) = Reply 400 Expired_deleted
       \<and> findOne (by_id rid) (regs s') = None
       \<and> fst (getRegistration rid later s') = Reply 404 Not_found
       \<and> fst (checkRegistrationStatus rt rid later s') = Reply 404 Not_found
       \<and> fst (verifyPayment rt req later s') = Reply 404 Not_found"
proof -
  have c: "consistent s"
    using assms(1) by (rule reachable_consistent)
  have wf: "well_formed r"
    using c assms(2) by (rule well_formed_member)
  have rid: "rid \<noteq> []"
    using wf findOne_by_id [OF assms(2)] by (auto simp: well_formed_def)
  have unpaid: "payment_status r \<noteq> Pay_paid"
    using wf assms(3) by (auto simp: well_formed_def)
  have old: "createdAt r < now - DELETE_PENDING_AFTER_MINUTES * 60 * 1000"
    using assms(4) by (simp add: DELETE_PENDING_AFTER_MINUTES_def)
  have g: "getRegistration rid now s = (Reply 404 Expired_deleted, delete_registration rid s)"
    using assms(2,3) old by (simp add: getRegistration_def Let_def)
  have k: "checkRegistrationStatus rt rid now s
             = (Reply 404 Expired_deleted, delete_registration rid s)"
    using assms(2,3) old rid by (simp add: checkRegistrationStatus_def Let_def)
  have v: "verifyPayment rt req now s
             = (Reply 400 Expired_deleted,
                delete_payment_records rid (delete_registration rid s))"
    using assms(2,3,5,6) old rid unpaid by (simp add: verifyPayment_def)
  have gone: "findOne (by_id rid) (regs s') = None"
    using assms(7) lookup_after_delete [OF c, of rid] by (auto simp: g k v)
  have "fst (getRegistration rid later s') = Reply 404 Not_found"
    using gone by (simp add: getRegistration_def)
  moreover have "fst (checkRegistrationStatus rt rid later s') = Reply 404 Not_found"
    using gone rid by (simp add: checkRegistrationStatus_def)
  moreover have "fst (verifyPayment rt req later s') = Reply 404 Not_found"
    using gone rid assms(5,6) by (simp add: verifyPayment_def)
  ultimately show ?thesis
    using g k v gone by simp
qed


theorem C5_lazy_expiry_on_lookup_witness:
  "reachable demo_runtime (run demo_runtime [(Register anna_request, 0)] empty_db)
   \<and> findOne (by_id ''LS-RD26-00001'')
        (regs (run demo_runtime [(Register anna_request, 0)] empty_db))
       = Some (hold ''LS-RD26-00001'' 0)
   \<and> status (hold ''LS-RD26-00001'' 0) = Pending_payment
   \<and> createdAt (hold ''LS-RD26-00001'' 0) < 700000 - 10 * 60 * 1000
   \<and> fst (getRegistration ''LS-RD26-00001'' 700000
        (run demo_runtime [(Register anna_request, 0)] empty_db)) = Reply 404 Expired_deleted
   \<and> findOne (by_id ''LS-RD26-00001'')
        (regs (snd (getRegistration ''LS-RD26-00001'' 700000
           (run demo_runtime [(Register anna_request, 0)] empty_db)))) = None"
proof -
  let ?s = "run demo_runtime [(Register anna_request, 0)] empty_db"
  let ?req = "\<lparr>v_razorpay_payment_id = ''pay_1'', v_razorpay_order_id = None,
               v_razorpay_signature = None, v_registrationId = ''LS-RD26-00001''\<rparr>"
  have r: "reachable demo_runtime ?s"
    by (rule reachable_run [OF reachable.start])
  have f: "findOne (by_id ''LS-RD26-00001'') (regs ?s) = Some (hold ''LS-RD26-00001'' 0)"
    by code_simp
  have st: "status (hold ''LS-RD26-00001'' 0) = Pending_payment"
    by (simp add: hold_def)
  have age: "createdAt (hold ''LS-RD26-00001'' 0) < 700000 - 10 * 60 * 1000"
    by (simp add: hold_def)
  have "v_registrationId ?req = ''LS-RD26-00001''" "v_razorpay_payment_id ?req \<noteq> []"
    by simp_all
  from C5_lazy_expiry_on_lookup [OF r f st age this, of "snd (getRegistration ''LS-RD26-00001'' 700000 ?s)"]
  show ?thesis using r f st age by simp
qed


section \<open>Payment confirmation on the client path\<close>

lemma find_filter_keeps:
  "find P xs = Some x \<Longrightarrow> Q x \<Longrightarrow> find P (filter Q xs) = Some x"
  by (induction xs) (auto split: if_splits)

lemma findOne_after_checkSlot:
  assumes "findOne q (regs s) = Some r"
    and "\<not> sweptQuery rt c b d (now - 600000) r"
  shows "findOne q (regs (snd (checkSlotAvailability rt c b d now s))) = Some r"
  using assms by (simp add: checkSlot_regs deleteMany_def findOne_def find_filter_keeps)

lemma sweptQuery_old: "sweptQuery rt c b d t r \<Longrightarrow> createdAt r < t"
  by (simp add: sweptQuery_def oldPendingQuery_def split: option.splits)

lemma findOne_after_save:
  assumes "findOne (by_id (registrationId r)) (regs s) = Some r0"
    and "save now r s = Inr s'"
  shows "findOne (by_id (registrationId r)) (regs s') = Some (pre_save now r)"
proof -
  have "find (by_id rid) (map (\<lambda>x. if registrationId x = rid then r' else x) xs) = Some r'"
    if "find (by_id rid) xs = Some r0" "registrationId r' = rid" for xs rid r'
    using that by (induction xs) (auto simp: by_id_def split: if_splits)
  then show ?thesis
    using assms by (auto simp: save_def findOne_def split: if_splits)
qed

lemma regs_try_create_log [simp]: "regs (try_create_log l s) = regs s"
  by (simp add: try_create_log_def split: sum.splits)

lemma verifyPayment_verified:
  assumes "verifyPayment rt req now s = (Reply 200 Payment_verified, s1)"
  obtains r info sa s2 where
    "v_razorpay_payment_id req \<noteq> []" "v_registrationId req \<noteq> []"
    "findOne (by_id (v_registrationId req)) (regs s) = Some r"
    "payment_status r \<noteq> Pay_paid" "status r = Pending_payment"
    "\<not> createdAt r < now - 600000"
    "checkSlotAvailability rt (carnivalName r) (selectedBatch r) (Date_object (selectedDate r))
       now s = (info, sa)"
    "\<not> isFull info"
    "verify_client_signature rt req = Inr True"
    "save now (paid_registration req r now) sa = Inr s2"
    "s1 = try_create_log (captured_log req r) s2"
  using assms
  by (auto simp: verifyPayment_def DELETE_PENDING_AFTER_MINUTES_def
      split: if_splits option.splits sum.splits prod.splits)

lemma pre_save_paid [simp]:
  "pre_save now (paid_registration req r t) = paid_registration req r t"
  by (simp add: pre_save_def paid_registration_def split: option.splits)

lemma one_log_after_create:
  assumes "distinct (map l_razorpay_payment_id ps)"
    and "l_registrationId l \<noteq> None" "l_razorpay_payment_id l \<noteq> []" "l_amount l \<noteq> None"
  shows "length (filter (\<lambda>x. l_razorpay_payment_id x = l_razorpay_payment_id l)
           (case create_log l ps of Inl _ \<Rightarrow> ps | Inr ps' \<Rightarrow> ps')) = 1"
proof -
  have one: "length (filter (\<lambda>x. f x = k) xs) = 1" if "distinct (map f xs)" "k \<in> f ` set xs"
    for f :: "pay_log \<Rightarrow> string" and k xs
    using that
  proof (induction xs)
    case Nil
    then show ?case by simp
  next
    case (Cons x xs)
    show ?case
    proof (cases "f x = k")
      case True
      then have "filter (\<lambda>x. f x = k) xs = []"
        using Cons.prems(1) by (force simp: filter_empty_conv image_iff)
      with True show ?thesis by simp
    next
      case False
      with Cons show ?thesis by auto
    qed
  qed
  have none: "filter (\<lambda>x. f x = k) xs = []" if "k \<notin> f ` set xs"
    for f :: "pay_log \<Rightarrow> string" and k xs
    using that by (auto simp: filter_empty_conv)
  show ?thesis
    using assms one [OF assms(1), of "l_razorpay_payment_id l"]
      none [of "l_razorpay_payment_id l" l_razorpay_payment_id ps]
    by (auto simp: create_log_def)
qed

text \<open>
  C6 (amended). When verify-payment has confirmed a payment, a second call with the same
  request (at any later time) replies with success 200 and leaves both collections
  exactly as they were, so it appends no payment record: the reservation is registered
  and paid after the first call and after the second, and the log holds exactly one
  record with the gateway payment id. That record is the captured record of the first
  call when the log had none for that id before.
\<close>

theorem C6_verify_payment_idempotent:
  assumes "reachable rt s"
    and "verifyPayment rt req now s = (Reply 200 Payment_verified, s1)"
  shows "verifyPayment rt req later s1 = (Reply 200 Already_processed, s1)
       \<and> map_option status (findOne (by_id (v_registrationId req)) (regs s1)) = Some Registered
       \<and> map_option payment_status (findOne (by_id (v_registrationId req)) (regs s1))
           = Some Pay_paid
       \<and> length (filter (\<lambda>l. l_razorpay_payment_id l = v_razorpay_payment_id req) (pays s1)) = 1
       \<and> (v_razorpay_payment_id req \<notin> l_razorpay_payment_id ` set (pays s) \<longrightarrow>
            map l_status (filter (\<lambda>l. l_razorpay_payment_id l = v_razorpay_payment_id req)
              (pays s1)) = [Log_captured])"
proof -
  from assms(2) obtain r info sa s2 where
    pid: "v_razorpay_payment_id req \<noteq> []" and rid: "v_registrationId req \<noteq> []"
    and f: "findOne (by_id (v_registrationId req)) (regs s) = Some r"
    and fresh: "\<not> createdAt r < now - 600000"
    and slot: "checkSlotAvailability rt (carnivalName r) (selectedBatch r)
                 (Date_object (selectedDate r)) now s = (info, sa)"
    and sv: "save now (paid_registration req r now) sa = Inr s2"
    and s1: "s1 = try_create_log (captured_log req r) s2"
    by (rule verifyPayment_verified)
  let ?paid = "paid_registration req r now"
  have id: "registrationId ?paid = v_registrationId req"
    using findOne_by_id [OF f] by (simp add: paid_registration_def)
  have "findOne (by_id (v_registrationId req)) (regs sa) = Some r"
    using findOne_after_checkSlot [OF f, of rt "carnivalName r" "selectedBatch r"
        "Date_object (selectedDate r)" now] sweptQuery_old [of rt "carnivalName r"
        "selectedBatch r" "Date_object (selectedDate r)" "now - 600000" r]
      fresh slot by auto
  then have "findOne (by_id (v_registrationId req)) (regs s2) = Some (pre_save now ?paid)"
    using findOne_after_save [of ?paid sa r now s2] sv id by simp
  then have found: "findOne (by_id (v_registrationId req)) (regs s1) = Some ?paid"
    by (simp add: s1)
  have st: "status ?paid = Registered" "payment_status ?paid = Pay_paid"
    by (simp_all add: paid_registration_def)
  have again: "verifyPayment rt req later s1 = (Reply 200 Already_processed, s1)"
    using pid rid found st by (simp add: verifyPayment_def)
  have "consistent s"
    using assms(1) by (rule reachable_consistent)
  then have "consistent sa"
    using consistent_checkSlot [of s rt "carnivalName r" "selectedBatch r"
        "Date_object (selectedDate r)" now] slot
    by simp
  have "pays s2 = pays sa"
    using sv by (auto simp: save_def split: if_splits)
  moreover have "pays sa = pays s"
    using checkSlot_pays [of rt "carnivalName r" "selectedBatch r"
        "Date_object (selectedDate r)" now s] slot
    by simp
  ultimately have p2: "pays s2 = pays s" by simp
  have d: "distinct (map l_razorpay_payment_id (pays s))"
    using \<open>consistent s\<close> by (simp add: consistent_def)
  have p1: "pays s1 = (case create_log (captured_log req r) (pays s) of
                         Inl _ \<Rightarrow> pays s | Inr ps' \<Rightarrow> ps')"
    by (simp add: s1 try_create_log_def p2 split: sum.splits)
  have lid: "l_razorpay_payment_id (captured_log req r) = v_razorpay_payment_id req"
    by (simp add: captured_log_def)
  have one: "length (filter (\<lambda>l. l_razorpay_payment_id l = v_razorpay_payment_id req) (pays s1))
               = 1"
    using one_log_after_create [OF d, of "captured_log req r"] pid
    by (simp add: p1 lid) (simp add: captured_log_def)
  have new: "map l_status (filter (\<lambda>l. l_razorpay_payment_id l = v_razorpay_payment_id req)
               (pays s1)) = [Log_captured]"
    if "v_razorpay_payment_id req \<notin> l_razorpay_payment_id ` set (pays s)"
  proof -
    have "filter (\<lambda>l. l_razorpay_payment_id l = v_razorpay_payment_id req) (pays s) = []"
      using that by (force simp: filter_empty_conv image_iff)
    then show ?thesis
      using that pid by (simp add: p1 create_log_def captured_log_def)
  qed
  show ?thesis
    using again found st one new by simp
qed


theorem C6_verify_payment_idempotent_witness:
  "reachable demo_runtime
     (run demo_runtime unpaid_run empty_db)
   \<and> fst (verifyPayment demo_runtime anna_payment 60000
        (run demo_runtime unpaid_run empty_db))
       = Reply 200 Payment_verified
   \<and> fst (verifyPayment demo_runtime anna_payment 120000
        (snd (verifyPayment demo_runtime anna_payment 60000
           (run demo_runtime unpaid_run empty_db))))
       = Reply 200 Already_processed
   \<and> map l_status (pays (snd (verifyPayment demo_runtime anna_payment 120000
        (snd (verifyPayment demo_runtime anna_payment 60000
           (run demo_runtime unpaid_run empty_db))))))
       = [Log_captured]"
proof -
  let ?s = "run demo_runtime unpaid_run empty_db"
  let ?s1 = "snd (verifyPayment demo_runtime anna_payment 60000 ?s)"
  have r: "reachable demo_runtime ?s"
    by (rule reachable_run [OF reachable.start])
  have ok: "fst (verifyPayment demo_runtime anna_payment 60000 ?s) = Reply 200 Payment_verified"
    by code_simp
  then have v: "verifyPayment demo_runtime anna_payment 60000 ?s = (Reply 200 Payment_verified, ?s1)"
    by (simp add: prod_eq_iff)
  have logs: "map l_status (pays ?s1) = [Log_captured]"
    by code_simp
  from C6_verify_payment_idempotent [OF r v, of 120000]
  show ?thesis using r ok logs by simp
qed


text \<open>
  The claim as stated fails: when the gateway's payment.authorized event has logged a
  record for the payment before the client confirms it, both calls of verify-payment
  reply with success and the reservation is registered and paid, but no successful
  record exists; the log still holds the authorized record alone, because the append
  of the first call meets the unique index on the payment id and is dropped.
\<close>

theorem C6_no_captured_record_after_authorized_event:
  "fst (verifyPayment demo_runtime anna_payment 60000
     (run demo_runtime (unpaid_run @ [(Webhook (gateway_event ''payment.authorized''), 2000)])
        empty_db))
     = Reply 200 Payment_verified
   \<and> fst (verifyPayment demo_runtime anna_payment 120000
       (snd (verifyPayment demo_runtime anna_payment 60000
          (run demo_runtime (unpaid_run @ [(Webhook (gateway_event ''payment.authorized''), 2000)])
             empty_db))))
     = Reply 200 Already_processed
   \<and> map (\<lambda>r. (registrationId r, status r, payment_status r))
       (regs (snd (verifyPayment demo_runtime anna_payment 120000
          (snd (verifyPayment demo_runtime anna_payment 60000
             (run demo_runtime
                (unpaid_run @ [(Webhook (gateway_event ''payment.authorized''), 2000)])
                empty_db))))))
     = [(''LS-RD26-00001'', Registered, Pay_paid)]
   \<and> map (\<lambda>l. (l_razorpay_payment_id l, l_status l))
       (pays (snd (verifyPayment demo_runtime anna_payment 120000
          (snd (verifyPayment demo_runtime anna_payment 60000
             (run demo_runtime
                (unpaid_run @ [(Webhook (gateway_event ''payment.authorized''), 2000)])
                empty_db))))))
     = [(''pay_1'', Log_authorized)]"
  by code_simp

section \<open>Where the code departs from its specification\<close>

text \<open>
  C2 (the code departs from the claim). The webhook's payment.captured handler loads the
  reservation by order id and marks it registered and paid with none of the checks of
  the client path. Three reservations that verify-payment refuses are confirmed by the
  webhook: a hold that is eleven minutes old (the client path deletes it and replies
  with the expiry error), a reservation whose status is expired, and a hold whose slot
  re-check fails (nineteen confirmed reservations and the hold itself fill the batch).
\<close>

theorem C2_webhook_capture_skips_checks:
  "map (\<lambda>r. (registrationId r, status r, payment_status r))
     (regs (snd (handleWebhook demo_runtime (gateway_event ''payment.captured'') 700000
        (run demo_runtime unpaid_run empty_db))))
     = [(''LS-RD26-00001'', Registered, Pay_paid)]
   \<and> verifyPayment demo_runtime anna_payment 700000 (run demo_runtime unpaid_run empty_db)
     = (Reply 400 Expired_deleted, empty_db)
   \<and> map (\<lambda>r. (registrationId r, status r, payment_status r))
       (regs (run demo_runtime late_order_run empty_db))
     = [(''LS-RD26-00001'', Expired, Pay_expired)]
   \<and> map (\<lambda>r. (registrationId r, status r, payment_status r))
     (regs (snd (handleWebhook demo_runtime (gateway_event ''payment.captured'') 902000
        (run demo_runtime late_order_run empty_db))))
     = [(''LS-RD26-00001'', Registered, Pay_paid)]
   \<and> fst (verifyPayment demo_runtime anna_payment 902000
        (run demo_runtime late_order_run empty_db))
     = Reply 400 Registration_expired
   \<and> fst (verifyPayment demo_runtime anna_payment 700000
        \<lparr>regs = ordered_hold ''LS-RD26-00001'' 650000 # nineteen_confirmed, pays = []\<rparr>)
     = Reply 400 Slot_full
   \<and> map (\<lambda>r. (status r, payment_status r))
     (filter (by_id ''LS-RD26-00001'')
        (regs (snd (handleWebhook demo_runtime (gateway_event ''payment.captured'') 700000
           \<lparr>regs = ordered_hold ''LS-RD26-00001'' 650000 # nineteen_confirmed, pays = []\<rparr>))))
     = [(Registered, Pay_paid)]"
  by code_simp

text \<open>
  C3 (the code departs from the claim). A run reaches a reservation that is registered
  while its payment status is pending: the payment.authorized handler sets the payment
  status to pending whatever the reservation's status is, so an authorized event that
  arrives after the client has confirmed the payment takes a registered and paid
  reservation back to pending.
\<close>

theorem C3_registered_with_pending_payment:
  "reachable demo_runtime
     (run demo_runtime
        (unpaid_run @ [(VerifyPayment anna_payment, 60000),
                       (Webhook (gateway_event ''payment.authorized''), 61000)]) empty_db)
   \<and> map (\<lambda>r. (registrationId r, status r, payment_status r))
       (regs (run demo_runtime
          (unpaid_run @ [(VerifyPayment anna_payment, 60000),
                         (Webhook (gateway_event ''payment.authorized''), 61000)]) empty_db))
     = [(''LS-RD26-00001'', Registered, Pay_pending)]"
proof (rule conjI)
  show "reachable demo_runtime
     (run demo_runtime
        (unpaid_run @ [(VerifyPayment anna_payment, 60000),
                       (Webhook (gateway_event ''payment.authorized''), 61000)]) empty_db)"
    by (rule reachable_run [OF reachable.start])
  show "map (\<lambda>r. (registrationId r, status r, payment_status r))
       (regs (run demo_runtime
          (unpaid_run @ [(VerifyPayment anna_payment, 60000),
                         (Webhook (gateway_event ''payment.authorized''), 61000)]) empty_db))
     = [(''LS-RD26-00001'', Registered, Pay_pending)]"
    by code_simp
qed

text \<open>
  C7 (the code departs from the claim). The child name is matched as a regular
  expression, not compared up to letter case. A child named \<open>Anna (Annie)\<close> who is
  registered and paid, with the same email and phone, event and date, is not reported
  as a duplicate of \<open>Anna (Annie)\<close>: the parentheses form a group, so the pattern matches
  \<open>Anna Annie\<close> only, and the registration endpoint creates a second reservation. And the
  name \<open>A.J\<close> is reported as a duplicate of a paid child named \<open>Abj\<close>.
\<close>

theorem C7_duplicate_check_is_a_pattern_match:
  "childName (confirmed_hold ''LS-RD26-00001'' 0) = req_childName anna_request
   \<and> dup_exists (checkDuplicateRegistration demo_runtime ''Clay Day'' ''Mum@Example.com''
        ''9876543210'' (req_childName anna_request) ''2026-01-26''
        \<lparr>regs = [confirmed_hold ''LS-RD26-00001'' 0], pays = []\<rparr>) = False
   \<and> fst (register demo_runtime anna_request 700000
        \<lparr>regs = [confirmed_hold ''LS-RD26-00001'' 0], pays = []\<rparr>)
       = Reply 201 (Created ''LS-RD26-00002'')
   \<and> dup_exists (checkDuplicateRegistration demo_runtime ''Clay Day'' ''Mum@Example.com''
        ''9876543210'' ''A.J'' ''2026-01-26''
        \<lparr>regs = [(confirmed_hold ''LS-RD26-00001'' 0)\<lparr>childName := ''Abj''\<rparr>], pays = []\<rparr>)
       = True"
  by code_simp


section \<open>Which expiry condition decides\<close>

lemma set_expiry_fields [simp]:
  "registrationId (set_expiry f r) = registrationId r"
  "carnivalName (set_expiry f r) = carnivalName r"
  "selectedBatch (set_expiry f r) = selectedBatch r"
  "selectedDate (set_expiry f r) = selectedDate r"
  "materialType (set_expiry f r) = materialType r"
  "status (set_expiry f r) = status r"
  "payment_status (set_expiry f r) = payment_status r"
  "payment (set_expiry f r) = payment r"
  "createdAt (set_expiry f r) = createdAt r"
  by (simp_all add: set_expiry_def)

lemma with_expiry_fields [simp]:
  "regs (with_expiry f s) = map (set_expiry f) (regs s)"
  "pays (with_expiry f s) = pays s"
  by (simp_all add: with_expiry_def)

lemma with_expiry_pays_update [simp]:
  "with_expiry f (s\<lparr>pays := ps\<rparr>) = (with_expiry f s)\<lparr>pays := ps\<rparr>"
  by (simp add: with_expiry_def)






lemma queries_set_expiry [simp]:
  "oldPendingQuery c b q t (set_expiry f r) = oldPendingQuery c b q t r"
  "paidQuery c b q (set_expiry f r) = paidQuery c b q r"
  "activePendingQuery c b q t (set_expiry f r) = activePendingQuery c b q t r"
  "expiredPendingQuery c b q (set_expiry f r) = expiredPendingQuery c b q r"
  "stalePending t (set_expiry f r) = stalePending t r"
  "by_id rid (set_expiry f r) = by_id rid r"
  by (simp_all add: oldPendingQuery_def paidQuery_def activePendingQuery_def
      expiredPendingQuery_def stalePending_def by_id_def in_scope_def)















subsection \<open>What the sweeps and the lookups delete\<close>







subsection \<open>What the pre-save hook flags\<close>









section \<open>Replies of the webhook endpoint\<close>

text \<open>
  The endpoint replies 400 and changes nothing when the signature header is missing or
  empty or is not the HMAC of the request body. With a valid signature it replies 200
  whenever the body carries a payment entity, whatever the event and whatever becomes
  of the event's handler, which catches its own failures.
\<close>

lemma handleWebhook_replies:
  "(truthy (wh_signature req) = None \<longrightarrow> handleWebhook rt req now s = (Reply 400 No_signature, s))
   \<and> (\<forall>signature. truthy (wh_signature req) = Some signature
         \<and> \<not> verifyWebhookSignature rt (wh_body req) signature
        \<longrightarrow> handleWebhook rt req now s = (Reply 400 Invalid_signature, s))
   \<and> (\<forall>signature p. truthy (wh_signature req) = Some signature
         \<and> verifyWebhookSignature rt (wh_body req) signature \<and> wh_entity req = Some p
        \<longrightarrow> handleWebhook rt req now s
            = (Reply 200 Webhook_processed, dispatch_event (wh_event req) p now s))"
  by (simp add: handleWebhook_def)

text \<open>
  C8 (the code departs from the claim). A correctly signed event whose body has no
  payment entity (a settlement event, say) is answered with 500, not with the success
  acknowledgment: the entity is read, before the event is dispatched, without a check
  that it is there. A signed event that has the entity is acknowledged with 200 also
  when no handler exists for it.
\<close>

theorem C8_signed_event_without_payment_entity:
  "verifyWebhookSignature demo_runtime ''settlement.processed''
     ''webhook-secret/settlement.processed''
   \<and> handleWebhook demo_runtime
       \<lparr>wh_signature = Some ''webhook-secret/settlement.processed'',
        wh_body = ''settlement.processed'', wh_event = ''settlement.processed'',
        wh_entity = None\<rparr> 1000 empty_db
     = (Reply 500 Webhook_failed, empty_db)
   \<and> handleWebhook demo_runtime (gateway_event ''order.paid'') 1000 empty_db
     = (Reply 200 Webhook_processed, empty_db)"
  by code_simp


section \<open>The duplicate guard fails open\<close>

text \<open>
  C10. When the guard's query throws (the pattern built from the child name is not a
  regular expression), the duplicate check reports no duplicate, and the registration
  endpoint, for a request that passes validation, goes on exactly as it does when no
  duplicate exists: it never replies 409, and it creates the reservation whenever the
  slot is not full and the generated id is free (unless the schema finds a required
  field of the new document empty, which ends the request with 500).
\<close>

theorem C10_duplicate_guard_fails_open:
  assumes "duplicateQuery rt (req_carnivalName req) (req_email req) (req_phone req)
             (req_childName req) (req_selectedDate req) = Inl e"
    and "validateRegistrationData rt req now" and "req_carnivalName req \<noteq> []"
    and "validateDate (req_selectedDate req) (req_availableDates req) now = Some date"
    and "validateBatch (req_selectedBatch req)"
  shows "checkDuplicateRegistration rt (req_carnivalName req) (req_email req) (req_phone req)
           (req_childName req) (req_selectedDate req) s
         = \<lparr>dup_exists = False, dup_data = None, dup_error = Some e\<rparr>
       \<and> register rt req now s = create_registration rt req date now s
       \<and> http_status (fst (register rt req now s)) \<noteq> 409
       \<and> (\<forall>info s1. checkSlotAvailability rt (req_carnivalName req) (req_selectedBatch req)
                       (Date_string (req_selectedDate req)) now s = (info, s1)
             \<and> \<not> isFull info
             \<and> generateRegistrationId (regs s1) \<notin> registrationId ` set (regs s1)
            \<longrightarrow> register rt req now s
                = (if required_fields (new_registration (generateRegistrationId (regs s1))
                                         req date now)
                   then (Reply 201 (Created (generateRegistrationId (regs s1))),
                         s1\<lparr>regs := regs s1 @ [new_registration (generateRegistrationId (regs s1))
                                                  req date now]\<rparr>)
                   else (Reply 500 Internal_error, s1)))"
proof -
  have chk: "checkDuplicateRegistration rt (req_carnivalName req) (req_email req) (req_phone req)
           (req_childName req) (req_selectedDate req) s
         = \<lparr>dup_exists = False, dup_data = None, dup_error = Some e\<rparr>"
    using assms(1) by (simp add: checkDuplicateRegistration_def)
  have reg: "register rt req now s = create_registration rt req date now s"
    using assms(2-5) by (simp add: register_def check_and_create_def chk)
  have no409: "http_status (fst (create_registration rt req date now s)) \<noteq> 409"
    by (simp add: create_registration_def Let_def split: prod.splits sum.splits)
  have ps: "pre_save now (new_registration rid req date now) = new_registration rid req date now"
    for rid
    by (simp add: pre_save_def new_registration_def MAX_PENDING_MINUTES_def)
  have st: "status_enum (status (new_registration rid req date now))" for rid
    by (simp add: status_enum_def new_registration_def)
  have rid: "registrationId (new_registration rid req date now) = rid" for rid
    by (simp add: new_registration_def)
  have created: "create_registration rt req date now s
      = (if required_fields (new_registration (generateRegistrationId (regs s1)) req date now)
         then (Reply 201 (Created (generateRegistrationId (regs s1))),
               s1\<lparr>regs := regs s1 @ [new_registration (generateRegistrationId (regs s1)) req
                                        date now]\<rparr>)
         else (Reply 500 Internal_error, s1))"
    if "checkSlotAvailability rt (req_carnivalName req) (req_selectedBatch req)
          (Date_string (req_selectedDate req)) now s = (info, s1)"
      and "\<not> isFull info"
      and "generateRegistrationId (regs s1) \<notin> registrationId ` set (regs s1)"
    for info s1
    using that by (simp add: create_registration_def save_new_def Let_def ps st rid)
  show ?thesis
    unfolding reg using chk no409 created by blast
qed


theorem C10_duplicate_guard_fails_open_witness:
  "duplicateQuery demo_runtime ''Clay Day'' ''Mum@Example.com'' ''9876543210'' ''Anna (Annie''
     ''2026-01-26'' = Inl SyntaxError
   \<and> validateRegistrationData demo_runtime (anna_request\<lparr>req_childName := ''Anna (Annie''\<rparr>) 700000
   \<and> validateDate ''2026-01-26'' [] 700000 = Some 20479
   \<and> validateBatch (req_selectedBatch anna_request)
   \<and> dup_exists (checkDuplicateRegistration demo_runtime ''Clay Day'' ''Mum@Example.com''
        ''9876543210'' ''Anna (Annie'' ''2026-01-26''
        \<lparr>regs = [(confirmed_hold ''LS-RD26-00001'' 0)\<lparr>childName := ''Anna (Annie''\<rparr>],
         pays = []\<rparr>) = False
   \<and> fst (register demo_runtime (anna_request\<lparr>req_childName := ''Anna (Annie''\<rparr>) 700000
        \<lparr>regs = [(confirmed_hold ''LS-RD26-00001'' 0)\<lparr>childName := ''Anna (Annie''\<rparr>],
         pays = []\<rparr>) = Reply 201 (Created ''LS-RD26-00002'')"
proof -
  let ?req = "anna_request\<lparr>req_childName := ''Anna (Annie''\<rparr>"
  let ?s = "\<lparr>regs = [(confirmed_hold ''LS-RD26-00001'' 0)\<lparr>childName := ''Anna (Annie''\<rparr>],
             pays = []\<rparr>"
  have p: "demo_RegExp_i ''^Anna (Annie$'' = None"
    by (simp add: demo_RegExp_i_def rx_ordinary_def)
  have t: "trim ''Anna (Annie'' = ''Anna (Annie''"
    by code_simp
  have q: "duplicateQuery demo_runtime (req_carnivalName ?req) (req_email ?req) (req_phone ?req)
             (req_childName ?req) (req_selectedDate ?req) = Inl SyntaxError"
    by (simp add: duplicateQuery_def demo_runtime_def t p)
  have v: "validateRegistrationData demo_runtime ?req 700000" "req_carnivalName ?req \<noteq> []"
    "validateDate (req_selectedDate ?req) (req_availableDates ?req) 700000 = Some 20479"
    "validateBatch (req_selectedBatch ?req)"
    by code_simp+
  have f: "fst (create_registration demo_runtime ?req 20479 700000 ?s)
             = Reply 201 (Created ''LS-RD26-00002'')"
    by code_simp
  have fields: "req_carnivalName ?req = ''Clay Day''" "req_email ?req = ''Mum@Example.com''"
    "req_phone ?req = ''9876543210''" "req_childName ?req = ''Anna (Annie''"
    "req_selectedDate ?req = ''2026-01-26''" "req_availableDates ?req = []"
    "req_selectedBatch ?req = req_selectedBatch anna_request"
    by (simp_all add: anna_request_def)
  from C10_duplicate_guard_fails_open [OF q v, of ?s]
  show ?thesis using q v f by (simp add: fields)
qed


section \<open>What holds of the paths that depart\<close>

subsection \<open>What the duplicate guard decides\<close>

lemma duplicate_check_exists:
  "dup_exists (checkDuplicateRegistration rt c em ph child d s) \<longleftrightarrow>
     (\<exists>test date. RegExp_i rt (''^'' @ trim child @ ''$'') = Some test
        \<and> parseDateForQuery rt (Date_string d) = Some date
        \<and> (\<exists>r\<in>set (regs s). carnivalName r = trim c \<and> selectedDate r = date
              \<and> test (childName r)
              \<and> status r = Registered \<and> payment_status r = Pay_paid
              \<and> (email r = trim (toLowerCase em) \<or> phone r = trim ph)))"
proof (cases "RegExp_i rt (''^'' @ trim child @ ''$'')")
  case None
  then show ?thesis
    by (simp add: checkDuplicateRegistration_def duplicateQuery_def)
next
  case (Some test)
  show ?thesis
  proof (cases "parseDateForQuery rt (Date_string d)")
    case None
    with Some show ?thesis
      by (simp add: checkDuplicateRegistration_def duplicateQuery_def)
  next
    case date: (Some date)
    define q :: "reservation \<Rightarrow> bool"
      where "q = (\<lambda>r. carnivalName r = trim c \<and> selectedDate r = date \<and> test (childName r)
                    \<and> status r = Registered \<and> payment_status r = Pay_paid
                    \<and> (email r = trim (toLowerCase em) \<or> phone r = trim ph))"
    have dq: "duplicateQuery rt c em ph child d = Inr q"
      using Some date by (simp add: duplicateQuery_def q_def)
    have "dup_exists (checkDuplicateRegistration rt c em ph child d s)
            \<longleftrightarrow> findOne q (regs s) \<noteq> None"
      by (cases "findOne q (regs s)") (simp_all add: checkDuplicateRegistration_def dq)
    also have "\<dots> \<longleftrightarrow> (\<exists>r\<in>set (regs s). q r)"
      by (simp add: findOne_None)
    finally show ?thesis
      using Some date by (simp add: q_def)
  qed
qed

text \<open>
  Where the engine's test for the pattern is the comparison up to letter case, as it is
  for a name without pattern characters, the guard decides what the specification says.
\<close>

lemma duplicate_check_exact:
  assumes "RegExp_i rt (''^'' @ trim child @ ''$'')
             = Some (\<lambda>name. toLowerCase name = toLowerCase (trim child))"
    and "parseDateForQuery rt (Date_string d) = Some date"
  shows "dup_exists (checkDuplicateRegistration rt c em ph child d s) \<longleftrightarrow>
     (\<exists>r\<in>set (regs s). carnivalName r = trim c \<and> selectedDate r = date
        \<and> toLowerCase (childName r) = toLowerCase (trim child)
        \<and> status r = Registered \<and> payment_status r = Pay_paid
        \<and> (email r = trim (toLowerCase em) \<or> phone r = trim ph))"
  unfolding duplicate_check_exists using assms by simp

lemma register_conflict_iff:
  assumes "validateRegistrationData rt req now" "req_carnivalName req \<noteq> []"
    "validateDate (req_selectedDate req) (req_availableDates req) now = Some date"
    "validateBatch (req_selectedBatch req)"
  shows "http_status (fst (register rt req now s)) = 409 \<longleftrightarrow>
     dup_exists (checkDuplicateRegistration rt (req_carnivalName req) (req_email req)
       (req_phone req) (req_childName req) (req_selectedDate req) s)"
proof -
  have "http_status (fst (create_registration rt req date now s)) \<noteq> 409"
    by (simp add: create_registration_def Let_def split: prod.splits sum.splits)
  then show ?thesis
    using assms by (simp add: register_def check_and_create_def Let_def)
qed

subsection \<open>The checks of the client path\<close>

lemma set_regs_save:
  "save now r s = Inr s' \<Longrightarrow> set (regs s') \<subseteq> insert (pre_save now r) (set (regs s))"
  by (auto simp: save_def split: if_splits)

lemma set_regs_checkSlot:
  "set (regs (snd (checkSlotAvailability rt c b d now s))) \<subseteq> set (regs s)"
  by (simp add: checkSlot_regs deleteMany_def)

lemma set_regs_checkMultiple:
  "set (regs (snd (checkMultipleSlotsAvailability rt c d batches now s))) \<subseteq> set (regs s)"
proof (induction batches arbitrary: s)
  case Nil
  then show ?case by simp
next
  case (Cons batch batches)
  have "set (regs (snd (checkMultipleSlotsAvailability rt c d batches now
                          (snd (checkSlotAvailability rt c batch d now s)))))
          \<subseteq> set (regs (snd (checkSlotAvailability rt c batch d now s)))"
    by (rule Cons.IH)
  also have "\<dots> \<subseteq> set (regs s)"
    by (rule set_regs_checkSlot)
  finally show ?case
    by (simp add: split_beta)
qed

lemma set_regs_carnivalDateStats:
  "set (regs (carnivalDateStats rt c dates now s)) \<subseteq> set (regs s)"
proof (induction dates arbitrary: s)
  case Nil
  then show ?case by simp
next
  case (Cons date dates)
  let ?s1 = "snd (checkMultipleSlotsAvailability rt c (Date_object date)
                (distinct_values selectedBatch
                   (\<lambda>r. carnivalName r = trim c \<and> selectedDate r = date) (regs s)) now s)"
  have "set (regs (carnivalDateStats rt c dates now ?s1)) \<subseteq> set (regs ?s1)"
    by (rule Cons.IH)
  also have "\<dots> \<subseteq> set (regs s)"
    by (rule set_regs_checkMultiple)
  finally show ?case
    by (simp add: split_beta Let_def)
qed

lemma set_regs_delete_registration: "set (regs (delete_registration rid s)) \<subseteq> set (regs s)"
  by (simp add: delete_registration_def set_deleteOne)

text \<open>
  Unless verify-payment replies that the payment is verified, it writes no reservation:
  it only deletes.
\<close>

lemma verifyPayment_outcomes:
  "fst (verifyPayment rt req now s) = Reply 200 Payment_verified
   \<or> snd (verifyPayment rt req now s) = s
   \<or> snd (verifyPayment rt req now s)
       = delete_payment_records (v_registrationId req)
           (delete_registration (v_registrationId req) s)
   \<or> (\<exists>c b d. snd (verifyPayment rt req now s) = snd (checkSlotAvailability rt c b d now s))"
  by (simp add: verifyPayment_def split_beta split: option.splits sum.splits) blast

lemma verifyPayment_refusal_writes_nothing:
  assumes "fst (verifyPayment rt req now s) \<noteq> Reply 200 Payment_verified"
  shows "set (regs (snd (verifyPayment rt req now s))) \<subseteq> set (regs s)"
proof -
  consider "snd (verifyPayment rt req now s) = s"
    | "snd (verifyPayment rt req now s)
         = delete_payment_records (v_registrationId req)
             (delete_registration (v_registrationId req) s)"
    | c b d where "snd (verifyPayment rt req now s) = snd (checkSlotAvailability rt c b d now s)"
    using verifyPayment_outcomes [of rt req now s] assms by blast
  then show ?thesis
  proof cases
    case 1
    then show ?thesis by simp
  next
    case 2
    then show ?thesis by (simp add: set_regs_delete_registration)
  next
    case 3
    then show ?thesis by (simp add: set_regs_checkSlot)
  qed
qed

subsection \<open>Registered is only ever set together with paid\<close>

text \<open>
  A reservation that is registered but not paid after an operation was registered
  already before it: the two paths that set the status to registered set the payment
  status to paid in the same save. (What breaks the invariant is the authorized handler,
  which resets the payment status of a reservation that is registered already.)
\<close>

lemma save_keeps_registered_paid:
  assumes "save now doc s = Inr s'" and "r' \<in> set (regs s')"
    and "status r' = Registered" and "payment_status r' \<noteq> Pay_paid"
    and "status doc = Registered \<and> payment_status doc \<noteq> Pay_paid
         \<Longrightarrow> \<exists>r\<in>set (regs s). registrationId r = registrationId doc \<and> status r = Registered"
  shows "\<exists>r\<in>set (regs s). registrationId r = registrationId r' \<and> status r = Registered"
proof (cases "r' \<in> set (regs s)")
  case True
  with assms(3) show ?thesis by blast
next
  case False
  then have eq: "r' = pre_save now doc"
    using set_regs_save [OF assms(1)] assms(2) by blast
  have "pre_save now doc = doc"
  proof (cases "payment_expires_at doc")
    case None
    then show ?thesis by (simp add: pre_save_def)
  next
    case (Some e)
    show ?thesis
    proof (cases "status doc = Pending_payment \<and> now > e")
      case True
      then have "status (pre_save now doc) = Expired"
        by (simp add: pre_save_def Some)
      with assms(3) eq show ?thesis by simp
    next
      case False
      then have "\<not> (status doc = Pending_payment \<and> e < now)"
        by simp
      then show ?thesis
        by (simp only: pre_save_def Some option.case if_False)
    qed
  qed
  with eq assms(3-5) show ?thesis by simp
qed

lemma save_new_regs: "save_new now r s = Inr s' \<Longrightarrow> regs s' = regs s @ [pre_save now r]"
  by (cases "status_enum (status r) \<and> required_fields r";
      cases "registrationId r \<in> registrationId ` set (regs s)")
     (auto simp: save_new_def)

lemma create_registration_keeps_registered_paid:
  assumes "r' \<in> set (regs (snd (create_registration rt req date now s)))"
    and "status r' = Registered"
  shows "r' \<in> set (regs s)"
proof -
  obtain info s1 where sl: "checkSlotAvailability rt (req_carnivalName req)
      (req_selectedBatch req) (Date_string (req_selectedDate req)) now s = (info, s1)"
    by (cases "checkSlotAvailability rt (req_carnivalName req) (req_selectedBatch req)
                 (Date_string (req_selectedDate req)) now s")
  have sub: "set (regs s1) \<subseteq> set (regs s)"
    using set_regs_checkSlot [of rt "req_carnivalName req" "req_selectedBatch req"
        "Date_string (req_selectedDate req)" now s] sl by simp
  let ?doc = "new_registration (generateRegistrationId (regs s1)) req date now"
  have new: "status (pre_save now ?doc) \<noteq> Registered"
    by (simp add: pre_save_def new_registration_def split: option.splits)
  show ?thesis
  proof (cases "save_new now ?doc s1")
    case (Inl e)
    then have "snd (create_registration rt req date now s) = s1"
      by (simp add: create_registration_def sl Let_def)
    with assms(1) sub show ?thesis by auto
  next
    case (Inr s2)
    then have "regs (snd (create_registration rt req date now s)) = regs s1
        \<or> regs (snd (create_registration rt req date now s)) = regs s1 @ [pre_save now ?doc]"
      using save_new_regs [OF Inr] by (simp add: create_registration_def sl Let_def)
    with assms new sub show ?thesis by auto
  qed
qed

lemma registered_is_set_with_paid:
  assumes "r' \<in> set (regs (snd (exec rt op now s)))"
    and "status r' = Registered" and "payment_status r' \<noteq> Pay_paid"
  shows "\<exists>r\<in>set (regs s). registrationId r = registrationId r' \<and> status r = Registered"
proof -
  have same: "\<exists>r\<in>set (regs s). registrationId r = registrationId r' \<and> status r = Registered"
    if "r' \<in> set (regs s)"
    using that assms(2) by blast
  have slot: "set (regs s1) \<subseteq> set (regs s)"
    if "checkSlotAvailability rt c b d now s = (info, s1)" for c b d info s1
    using set_regs_checkSlot [of rt c b d now s] that by simp
  have del: "set (regs (delete_registration rid s)) \<subseteq> set (regs s)" for rid
    by (rule set_regs_delete_registration)
  show ?thesis
  proof (cases op)
    case (CheckSlots c b d)
    with assms(1) have "r' \<in> set (regs s)"
      by (auto simp: checkSlots_def split: if_splits prod.splits dest: slot [THEN subsetD])
    then show ?thesis by (rule same)
  next
    case (CheckMultipleSlots c d batches)
    with assms(1) have "r' \<in> set (regs s)"
      using set_regs_checkMultiple [of rt c "Date_string d" batches now s]
      by (auto simp: checkMultipleSlots_def split_beta split: if_splits)
    then show ?thesis by (rule same)
  next
    case (CarnivalStatistics c)
    with assms(1) have "r' \<in> set (regs s)"
      using set_regs_carnivalDateStats [of rt c _ now s]
      by (auto simp: getCarnivalStatistics_def split: if_splits)
    then show ?thesis by (rule same)
  next
    case (Register req)
    with assms(1) have "r' \<in> set (regs s)"
      using create_registration_keeps_registered_paid [of r' rt req _ now s] assms(2)
      by (auto simp: register_def check_and_create_def Let_def split: if_splits option.splits)
    then show ?thesis by (rule same)
  next
    case (CreateOrder rid gateway_order)
    show ?thesis
    proof (cases "r' \<in> set (regs s)")
      case True
      then show ?thesis by (rule same)
    next
      case False
      with assms(1) CreateOrder obtain r oid s' where
        f: "findOne (by_id rid) (regs s) = Some r"
        and sv: "save now (r\<lparr>payment := (payment r)\<lparr>razorpay_order_id := Some oid,
                                   amount := Some (fee_of r)\<rparr>\<rparr>) s = Inr s'"
        and mem: "r' \<in> set (regs s')"
        by (auto simp: createOrder_def split: if_splits option.splits sum.splits)
      from sv mem assms(2,3) show ?thesis
      proof (rule save_keeps_registered_paid)
        show "\<exists>x\<in>set (regs s). registrationId x
                = registrationId (r\<lparr>payment := (payment r)\<lparr>razorpay_order_id := Some oid,
                                     amount := Some (fee_of r)\<rparr>\<rparr>) \<and> status x = Registered"
          if "status (r\<lparr>payment := (payment r)\<lparr>razorpay_order_id := Some oid,
                          amount := Some (fee_of r)\<rparr>\<rparr>) = Registered
              \<and> payment_status (r\<lparr>payment := (payment r)\<lparr>razorpay_order_id := Some oid,
                          amount := Some (fee_of r)\<rparr>\<rparr>) \<noteq> Pay_paid"
          using that findOne_Some [OF f] by auto
      qed
    qed
  next
    case (VerifyPayment req)
    show ?thesis
    proof (cases "fst (verifyPayment rt req now s) = Reply 200 Payment_verified")
      case False
      then have "r' \<in> set (regs s)"
        using verifyPayment_refusal_writes_nothing [of rt req now s] assms(1) VerifyPayment
        by auto
      then show ?thesis by (rule same)
    next
      case True
      then have v: "verifyPayment rt req now s
                      = (Reply 200 Payment_verified, snd (verifyPayment rt req now s))"
        by (simp add: prod_eq_iff)
      from v obtain r info sa s2 where
        sl: "checkSlotAvailability rt (carnivalName r) (selectedBatch r)
               (Date_object (selectedDate r)) now s = (info, sa)"
        and sv: "save now (paid_registration req r now) sa = Inr s2"
        and s1: "snd (verifyPayment rt req now s) = try_create_log (captured_log req r) s2"
        by (rule verifyPayment_verified)
      have mem: "r' \<in> set (regs s2)"
        using assms(1) VerifyPayment s1 by simp
      have "\<exists>x\<in>set (regs sa). registrationId x = registrationId r' \<and> status x = Registered"
        using sv mem assms(2,3)
        by (rule save_keeps_registered_paid) (simp add: paid_registration_def)
      then show ?thesis
        using slot [OF sl] by blast
    qed
  next
    case (GetRegistration rid)
    with assms(1) have "r' \<in> set (regs s)"
      by (auto simp: getRegistration_def Let_def split: option.splits if_splits
          dest: del [THEN subsetD])
    then show ?thesis by (rule same)
  next
    case (CheckRegistrationStatus rid)
    with assms(1) have "r' \<in> set (regs s)"
      by (auto simp: checkRegistrationStatus_def Let_def split: option.splits if_splits prod.splits
          dest: del [THEN subsetD] slot [THEN subsetD])
    then show ?thesis by (rule same)
  next
    case RunCleanup
    with assms(1) have "r' \<in> set (regs s)"
      by (auto simp: runCleanup_def cleanupExpiredRegistrations_def Let_def deleteMany_def
          split: prod.splits if_splits)
    then show ?thesis by (rule same)
  next
    case (ExpireRegistration rid)
    with assms(1) have "r' \<in> set (regs s)"
      by (auto simp: expireRegistration_def split: option.splits if_splits
          dest: del [THEN subsetD])
    then show ?thesis by (rule same)
  next
    case (Webhook req)
    show ?thesis
    proof (cases "r' \<in> set (regs s)")
      case True
      then show ?thesis by (rule same)
    next
      case False
      have auth: ?thesis if "r' \<in> set (regs (handlePaymentAuthorized p now s))" for p
      proof -
        from that False obtain r s1 where
          f: "findOne (by_order (wp_order_id p)) (regs s) = Some r"
          and sv: "save now (r\<lparr>payment_status := Pay_pending,
                     payment := (payment r)\<lparr>razorpay_payment_id := Some (wp_id p)\<rparr>\<rparr>) s = Inr s1"
          and mem: "r' \<in> set (regs s1)"
          by (auto simp: handlePaymentAuthorized_def split: option.splits sum.splits)
        from sv mem assms(2,3) show ?thesis
          by (rule save_keeps_registered_paid) (use findOne_Some [OF f] in auto)
      qed
      have capt: ?thesis if "r' \<in> set (regs (handlePaymentCaptured p now s))" for p
      proof -
        from that False obtain r s1 pi where
          sv: "save now (r\<lparr>payment_status := Pay_paid, status := Registered, payment := pi\<rparr>) s
                 = Inr s1"
          and mem: "r' \<in> set (regs s1)"
          by (auto simp: handlePaymentCaptured_def split: option.splits sum.splits)
        from sv mem assms(2,3) show ?thesis
          by (rule save_keeps_registered_paid) simp
      qed
      have fail: ?thesis if "r' \<in> set (regs (handlePaymentFailed p now s))" for p
      proof -
        from that False obtain r s1 where
          sv: "save now (r\<lparr>payment_status := Pay_pending, status := Pending_payment\<rparr>) s = Inr s1"
          and mem: "r' \<in> set (regs s1)"
          by (auto simp: handlePaymentFailed_def split: option.splits sum.splits)
        from sv mem assms(2,3) show ?thesis
          by (rule save_keeps_registered_paid) simp
      qed
      from assms(1) Webhook False show ?thesis
        by (auto simp: handleWebhook_def dispatch_event_def handlePaymentRefunded_unchanged
            split: option.splits if_splits intro: auth capt fail)
    qed
  qed
qed

end
